theory Spec2Isabelle
  imports Main "HOL-Library.Word" "HOL-Library.AList"
begin

section \<open>Values\<close>

text \<open>
  The extraction result is what Python's \<^verbatim>\<open>json.loads\<close> returns: \<^verbatim>\<open>None\<close>, a
  \<^verbatim>\<open>bool\<close>, an \<^verbatim>\<open>int\<close> (unbounded), a \<^verbatim>\<open>float\<close> (kept as its IEEE 754
  binary64 bit pattern, no arithmetic is done on it), a \<^verbatim>\<open>str\<close>, a \<^verbatim>\<open>list\<close> or a
  \<^verbatim>\<open>dict\<close> with string keys. A \<^verbatim>\<open>dict\<close> is an association list in insertion
  order, read by \<open>map_of\<close>. A character is a code point below 256.
\<close>

datatype json =
    JNull
  | JBool bool
  | JInt int
  | JFloat "64 word"
  | JStr string
  | JArr "json list"
  | JObj "(string \<times> json) list"

datatype py_error = KeyError | TypeError | AttributeError

text \<open>Decimal digits of a natural number, as \<^verbatim>\<open>str\<close> prints an \<^verbatim>\<open>int\<close>.\<close>

definition digit_char :: "nat \<Rightarrow> char" where
  "digit_char d = ''0123456789'' ! d"

fun str_nat :: "nat \<Rightarrow> string" where
  "str_nat n =
     (if n < 10 then [digit_char n] else str_nat (n div 10) @ [digit_char (n mod 10)])"

declare str_nat.simps [simp del]

definition str_int :: "int \<Rightarrow> string" where
  "str_int i = (if i < 0 then CHR ''-'' # str_nat (nat (- i)) else str_nat (nat i))"

text \<open>
  Python's builtin \<^verbatim>\<open>str\<close>. The text of a float, a list and a dict (their
  \<^verbatim>\<open>repr\<close>) is not part of the program; it is the parameter \<open>R\<close>. An integer
  that \<^verbatim>\<open>json.loads\<close> returns is within the digit limit that \<^verbatim>\<open>str\<close> accepts.
\<close>

fun py_str :: "(json \<Rightarrow> string) \<Rightarrow> json \<Rightarrow> string" where
  "py_str R JNull = ''None''"
| "py_str R (JBool True) = ''True''"
| "py_str R (JBool False) = ''False''"
| "py_str R (JInt i) = str_int i"
| "py_str R (JStr s) = s"
| "py_str R v = R v"

text \<open>Python's truth value of an object, as \<^verbatim>\<open>or\<close> tests it.\<close>

fun truthy :: "json \<Rightarrow> bool" where
  "truthy JNull = False"
| "truthy (JBool b) = b"
| "truthy (JInt i) = (i \<noteq> 0)"
| "truthy (JFloat w) = (w \<noteq> 0 \<and> w \<noteq> 0x8000000000000000)"
| "truthy (JStr s) = (s \<noteq> [])"
| "truthy (JArr xs) = (xs \<noteq> [])"
| "truthy (JObj kvs) = (kvs \<noteq> [])"

definition py_or :: "json \<Rightarrow> json \<Rightarrow> json" where
  "py_or a b = (if truthy a then a else b)"

text \<open>\<^verbatim>\<open>x[k]\<close> and \<^verbatim>\<open>x.get(k, default)\<close>; \<^verbatim>\<open>x.get(k)\<close> has the default \<^verbatim>\<open>None\<close>.\<close>

fun subscript :: "json \<Rightarrow> string \<Rightarrow> py_error + json" where
  "subscript (JObj kvs) k = (case map_of kvs k of None \<Rightarrow> Inl KeyError | Some v \<Rightarrow> Inr v)"
| "subscript v k = Inl TypeError"

fun get_default :: "json \<Rightarrow> string \<Rightarrow> json \<Rightarrow> py_error + json" where
  "get_default (JObj kvs) k dflt = Inr (case map_of kvs k of None \<Rightarrow> dflt | Some v \<Rightarrow> v)"
| "get_default v k dflt = Inl AttributeError"

definition get :: "json \<Rightarrow> string \<Rightarrow> py_error + json" where
  "get x k = get_default x k JNull"

section \<open>Value helpers\<close>

text \<open>The negative token is \<^verbatim>\<open>N\<close>, U+00E3, \<^verbatim>\<open>o\<close>.\<close>

definition Nao :: string where
  "Nao = [CHR ''N'', CHR 0xE3, CHR ''o'']"

fun sv :: "(json \<Rightarrow> string) \<Rightarrow> json \<Rightarrow> string" where
  "sv R JNull = []"
| "sv R (JBool True) = ''Sim''"
| "sv R (JBool False) = Nao"
| "sv R v = py_str R v"

section \<open>Dates and age\<close>

record pydate =
  year :: nat
  month :: nat
  day :: nat

definition is_digit :: "char \<Rightarrow> bool" where
  "is_digit c = (c \<in> set ''0123456789'')"

definition digit_val :: "char \<Rightarrow> nat" where
  "digit_val c = of_char c - 48"

text \<open>
  \<^verbatim>\<open>datetime.strptime(s, "%Y-%m-%d")\<close> matches \<open>s\<close> from its start against
  \<^verbatim>\<open>(\d\d\d\d)-(1[0-2]|0[1-9]|[1-9])-(3[0-1]|[1-2]\d|0[1-9]|[1-9]| [1-9])\<close>,
  the alternatives tried in this order, and raises \<^verbatim>\<open>ValueError\<close> when there is no
  match, when text is left after the match, or when the date does not exist. The two
  functions below list what each group can match, first choice first, with the rest of
  the text.
\<close>

definition month_alts :: "string \<Rightarrow> (nat \<times> string) list" where
  "month_alts s =
     (case s of
        a # b # r \<Rightarrow>
          (if a = CHR ''1'' \<and> b \<in> set ''012'' then [(10 + digit_val b, r)] else []) @
          (if a = CHR ''0'' \<and> b \<in> set ''123456789'' then [(digit_val b, r)] else [])
      | _ \<Rightarrow> []) @
     (case s of
        a # r \<Rightarrow> (if a \<in> set ''123456789'' then [(digit_val a, r)] else [])
      | [] \<Rightarrow> [])"

definition day_alts :: "string \<Rightarrow> (nat \<times> string) list" where
  "day_alts s =
     (case s of
        a # b # r \<Rightarrow>
          (if a = CHR ''3'' \<and> b \<in> set ''01'' then [(30 + digit_val b, r)] else []) @
          (if a \<in> set ''12'' \<and> is_digit b then [(10 * digit_val a + digit_val b, r)] else []) @
          (if a = CHR ''0'' \<and> b \<in> set ''123456789'' then [(digit_val b, r)] else [])
      | _ \<Rightarrow> []) @
     (case s of
        a # r \<Rightarrow> (if a \<in> set ''123456789'' then [(digit_val a, r)] else [])
      | [] \<Rightarrow> []) @
     (case s of
        a # b # r \<Rightarrow>
          (if a = CHR '' '' \<and> b \<in> set ''123456789'' then [(digit_val b, r)] else [])
      | _ \<Rightarrow> [])"

text \<open>After a month, a hyphen and a day must follow; the engine backtracks over the months.\<close>

definition month_day_alts :: "string \<Rightarrow> (nat \<times> nat \<times> string) list" where
  "month_day_alts s =
     concat (map (\<lambda>(m, r1).
        case r1 of
          c # r2 \<Rightarrow> (if c = CHR ''-'' then map (\<lambda>(d, r3). (m, d, r3)) (day_alts r2) else [])
        | [] \<Rightarrow> []) (month_alts s))"

definition ymd_match :: "string \<Rightarrow> (nat \<times> nat \<times> nat \<times> string) option" where
  "ymd_match s =
     (case s of
        y1 # y2 # y3 # y4 # c # r \<Rightarrow>
          (if is_digit y1 \<and> is_digit y2 \<and> is_digit y3 \<and> is_digit y4 \<and> c = CHR ''-'' then
             (case month_day_alts r of
                [] \<Rightarrow> None
              | (m, d, r3) # _ \<Rightarrow>
                  Some (1000 * digit_val y1 + 100 * digit_val y2 + 10 * digit_val y3 + digit_val y4,
                        m, d, r3))
           else None)
      | _ \<Rightarrow> None)"

definition is_leap :: "nat \<Rightarrow> bool" where
  "is_leap y = (y mod 4 = 0 \<and> (y mod 100 \<noteq> 0 \<or> y mod 400 = 0))"

definition days_in_month :: "nat \<Rightarrow> nat \<Rightarrow> nat" where
  "days_in_month y m =
     (if m = 2 then (if is_leap y then 29 else 28)
      else if m \<in> {4, 6, 9, 11} then 30 else 31)"

text \<open>\<open>None\<close> is the \<^verbatim>\<open>ValueError\<close>.\<close>

definition strptime_ymd :: "string \<Rightarrow> pydate option" where
  "strptime_ymd s =
     (case ymd_match s of
        None \<Rightarrow> None
      | Some (y, m, d, rest) \<Rightarrow>
          (if rest \<noteq> [] then None
           else if 1 \<le> y \<and> 1 \<le> d \<and> d \<le> days_in_month y m
           then Some \<lparr>year = y, month = m, day = d\<rparr>
           else None))"

text \<open>
  \<open>today\<close> is what \<^verbatim>\<open>date.today()\<close> returns. Whatever \<^verbatim>\<open>strptime\<close> raises
  (\<^verbatim>\<open>TypeError\<close> for an argument that is not a string, \<^verbatim>\<open>ValueError\<close> otherwise)
  is caught, and the result is \<^verbatim>\<open>None\<close>.
\<close>

definition calculate_age :: "pydate \<Rightarrow> json \<Rightarrow> int option" where
  "calculate_age today dob_str =
     (case dob_str of
        JStr s \<Rightarrow>
          (case strptime_ymd s of
             None \<Rightarrow> None
           | Some dob \<Rightarrow>
               Some (int (year today) - int (year dob)
                     - (if month today < month dob
                           \<or> (month today = month dob \<and> day today < day dob)
                        then 1 else 0)))
      | _ \<Rightarrow> None)"

definition age_value :: "int option \<Rightarrow> json" where
  "age_value a = (case a of None \<Rightarrow> JNull | Some n \<Rightarrow> JInt n)"

definition zpad :: "nat \<Rightarrow> string \<Rightarrow> string" where
  "zpad w s = replicate (w - length s) (CHR ''0'') @ s"

definition isoformat :: "pydate \<Rightarrow> string" where
  "isoformat t =
     zpad 4 (str_nat (year t)) @ ''-'' @ zpad 2 (str_nat (month t)) @ ''-'' @ zpad 2 (str_nat (day t))"

section \<open>Column headers\<close>

definition HEADERS_DOENTES :: "string list" where
  "HEADERS_DOENTES =
     [''N_Processo'', ''Data_Nascimento'', ''Idade'', ''Sexo'', ''Localidade'',
      ''Profissao'', ''Frailty_CFS'', ''Referenciacao'',
      ''DM2'', ''Tabagismo'', ''HTA'', ''Dislipidemia'', ''Obesidade'',
      ''SAOS'', ''Sedentarismo'', ''HxFamiliar_DC'',
      ''DAP'', ''DPOC'', ''Doenca_hepatica'', ''HBP'', ''FA'', ''Outras_comorbilidades'',
      ''IC_FE_tipo'', ''IC_Etiologia'', ''IC_FEVE_atual_pct'', ''IC_FEVE_trajetoria'',
      ''DRC_Grau'', ''DRC_Albuminuria'', ''DRC_Etiologia'',
      ''Fenotipo_congestao'',
      ''POCUS_FE_pct'', ''POCUS_EE_ratio'', ''POCUS_LinhasB_N'', ''POCUS_VCI_mm'',
      ''RASi'', ''RASi_farmaco'', ''RASi_dose'',
      ''MRA'', ''MRA_farmaco'', ''MRA_dose'',
      ''iSGLT2'', ''iSGLT2_farmaco'', ''iSGLT2_dose'',
      ''GLP1RA'', ''GLP1RA_farmaco'', ''GLP1RA_dose'',
      ''Estatina'', ''Estatina_farmaco'', ''Estatina_dose'',
      ''Diuretico_ansa'', ''Diuretico_ansa_farmaco'', ''Diuretico_ansa_dose'',
      ''Diuretico_tiazida'', ''Diuretico_tiazida_farmaco'', ''Diuretico_tiazida_dose'',
      ''Acetazolamida'', ''Acetazolamida_farmaco'', ''Acetazolamida_dose'',
      ''BetaBloqueante'', ''BetaBloqueante_farmaco'', ''BetaBloqueante_dose'',
      ''Antiagregante'', ''Antiagregante_farmaco'', ''Antiagregante_dose'',
      ''Anticoagulante'', ''Anticoagulante_farmaco'', ''Anticoagulante_dose'',
      ''Ivabradina'', ''Ivabradina_farmaco'', ''Ivabradina_dose'',
      ''Data_ultima_consulta'']"

definition HEADERS_VISITAS :: "string list" where
  "HEADERS_VISITAS =
     [''N_Processo'', ''Data_consulta'',
      ''Ureia'', ''Creatinina'', ''Cistatina_C'', ''TFGe_CKD_EPI_CrCist'',
      ''RACu_mg_g'', ''RPC_mg_g'', ''Na_urinario'',
      ''Albumina'', ''ALT'', ''AST'', ''GGT'', ''Bilirrubina_total'',
      ''Na'', ''K'', ''Cl'', ''Ca'', ''P'', ''Mg'',
      ''PTH'', ''Vit_D'',
      ''NT_proBNP'', ''BNP'', ''CA125'',
      ''Hgb'', ''Leucocitos'', ''Plaquetas'',
      ''HCO3'', ''Ca_ionizado'',
      ''Sumario_urina'',
      ''NYHA'', ''CCS'', ''Ortopneia'', ''Bendopneia'', ''Edemas_MI'',
      ''Claudicacao_intermitente'', ''Palpitacoes'',
      ''Peso_kg'', ''Altura_m'', ''IMC'', ''TA_sist'', ''TA_diast'', ''FC'', ''SpO2'']"

definition HEADERS_EVENTOS :: "string list" where
  "HEADERS_EVENTOS =
     [''N_Processo'', ''Data_evento'', ''Tipo_evento'', ''Causa_descricao'', ''Data_registo'']"

text \<open>The keys of \<^verbatim>\<open>MED_LABELS\<close>, in the order the dict is written.\<close>

definition MED_KEYS :: "string list" where
  "MED_KEYS =
     [''rasi'', ''mra'', ''isglt2'', ''glp1ra'', ''estatina'', ''diuretico_ansa'',
      ''diuretico_tiazida'', ''acetazolamida'', ''beta_bloqueante'', ''antiagregante'',
      ''anticoagulante'', ''ivabradina'']"

section \<open>Row builders\<close>

text \<open>
  \<open>cell R x k\<close> is \<^verbatim>\<open>sv(x.get(k))\<close>; \<open>cells R x ks\<close> is a run of such cells on the
  same object, evaluated left to right. \<open>concat_results\<close> is the evaluation of the list
  display: the parts in order, the first exception ending it.
\<close>

definition cell :: "(json \<Rightarrow> string) \<Rightarrow> json \<Rightarrow> string \<Rightarrow> py_error + string" where
  "cell R x k = (case get x k of Inl e \<Rightarrow> Inl e | Inr v \<Rightarrow> Inr (sv R v))"

fun cells :: "(json \<Rightarrow> string) \<Rightarrow> json \<Rightarrow> string list \<Rightarrow> py_error + string list" where
  "cells R x [] = Inr []"
| "cells R x (k # ks) =
     (case cell R x k of
        Inl e \<Rightarrow> Inl e
      | Inr c \<Rightarrow> (case cells R x ks of Inl e \<Rightarrow> Inl e | Inr cs \<Rightarrow> Inr (c # cs)))"

fun concat_results :: "(py_error + 'a list) list \<Rightarrow> py_error + 'a list" where
  "concat_results [] = Inr []"
| "concat_results (p # ps) =
     (case p of
        Inl e \<Rightarrow> Inl e
      | Inr xs \<Rightarrow> (case concat_results ps of Inl e \<Rightarrow> Inl e | Inr ys \<Rightarrow> Inr (xs @ ys)))"

text \<open>The inner function \<^verbatim>\<open>med3\<close> of \<^verbatim>\<open>build_doentes_row\<close>, with its free variable \<open>med\<close>.\<close>

definition med3 :: "(json \<Rightarrow> string) \<Rightarrow> json \<Rightarrow> string \<Rightarrow> py_error + string list" where
  "med3 R med key =
     (case get med key of
        Inl e \<Rightarrow> Inl e
      | Inr v \<Rightarrow> cells R (py_or v (JObj [])) [''presente'', ''farmaco'', ''dose''])"

definition build_doentes_row ::
  "(json \<Rightarrow> string) \<Rightarrow> pydate \<Rightarrow> string \<Rightarrow> json \<Rightarrow> py_error + string list" where
  "build_doentes_row R today n_processo extracted =
     (case subscript extracted ''doente'' of Inl e \<Rightarrow> Inl e | Inr d \<Rightarrow>
      case get_default d ''frcv'' (JObj []) of Inl e \<Rightarrow> Inl e | Inr frcv \<Rightarrow>
      case get_default d ''comorbilidades'' (JObj []) of Inl e \<Rightarrow> Inl e | Inr co \<Rightarrow>
      case get_default d ''ic'' (JObj []) of Inl e \<Rightarrow> Inl e | Inr ic \<Rightarrow>
      case get_default d ''drc'' (JObj []) of Inl e \<Rightarrow> Inl e | Inr drc \<Rightarrow>
      case get_default d ''pocus'' (JObj []) of Inl e \<Rightarrow> Inl e | Inr poc \<Rightarrow>
      case get_default d ''medicacao'' (JObj []) of Inl e \<Rightarrow> Inl e | Inr med \<Rightarrow>
      case get d ''data_nascimento'' of Inl e \<Rightarrow> Inl e | Inr dn \<Rightarrow>
        concat_results
          [Inr [n_processo],
           cells R d [''data_nascimento''],
           Inr [sv R (age_value (calculate_age today (py_or dn (JStr []))))],
           cells R d [''sexo'', ''localidade'', ''profissao'', ''frailty_cfs'', ''referenciacao''],
           cells R frcv [''dm2'', ''tabagismo'', ''hta'', ''dislipidemia'', ''obesidade'',
                         ''saos'', ''sedentarismo'', ''hx_familiar_dc''],
           cells R co [''dap'', ''dpoc'', ''doenca_hepatica'', ''hbp'', ''fa'', ''outras''],
           cells R ic [''tipo_fe'', ''etiologia'', ''feve_atual'', ''feve_trajetoria''],
           cells R drc [''grau'', ''albuminuria'', ''etiologia''],
           cells R d [''fenotipo_congestao''],
           cells R poc [''fe_pct'', ''ee_ratio'', ''linhas_b_n'', ''vci_mm''],
           med3 R med ''rasi'', med3 R med ''mra'', med3 R med ''isglt2'', med3 R med ''glp1ra'',
           med3 R med ''estatina'', med3 R med ''diuretico_ansa'', med3 R med ''diuretico_tiazida'',
           med3 R med ''acetazolamida'', med3 R med ''beta_bloqueante'',
           med3 R med ''antiagregante'', med3 R med ''anticoagulante'', med3 R med ''ivabradina'',
           Inr [isoformat today]])"

definition build_visitas_row ::
  "(json \<Rightarrow> string) \<Rightarrow> string \<Rightarrow> json \<Rightarrow> py_error + string list" where
  "build_visitas_row R n_processo extracted =
     (case subscript extracted ''visita'' of Inl e \<Rightarrow> Inl e | Inr v \<Rightarrow>
      case get_default v ''analises'' (JObj []) of Inl e \<Rightarrow> Inl e | Inr a \<Rightarrow>
      case get_default v ''sintomas'' (JObj []) of Inl e \<Rightarrow> Inl e | Inr s \<Rightarrow>
      case get_default v ''exame_fisico'' (JObj []) of Inl e \<Rightarrow> Inl e | Inr ef \<Rightarrow>
        concat_results
          [Inr [n_processo],
           cells R v [''data_consulta''],
           cells R a [''ureia'', ''creatinina'', ''cistatina_c'', ''tfge_ckd_epi_crcist'',
                      ''racu'', ''rpc'', ''na_urinario'',
                      ''albumina'',
                      ''alt'', ''ast'', ''ggt'', ''bilirrubina_total'',
                      ''na'', ''k'', ''cl'', ''ca'', ''p'', ''mg'',
                      ''pth'', ''vit_d'',
                      ''nt_probnp'', ''bnp'', ''ca125'',
                      ''hgb'', ''leucocitos'', ''plaquetas'',
                      ''hco3'', ''ca_ionizado'',
                      ''sumario_urina''],
           cells R s [''nyha'', ''ccs'', ''ortopneia'', ''bendopneia'', ''edemas_mi'',
                      ''claudicacao_intermitente'', ''palpitacoes''],
           cells R ef [''peso_kg'', ''altura_m'', ''imc'', ''ta_sist'', ''ta_diast'', ''fc'', ''spo2'']])"

section \<open>Storage\<close>

text \<open>
  A worksheet is the list of its rows, top row first; a row is the list of its cells from
  column A. The operations are those of the spreadsheet library the program calls, with
  its 1-based row numbers: \<^verbatim>\<open>col_values(1)\<close> reads column A (a row with no cell there
  reads as the empty string, and the empty cells at the end of the column are not
  returned), \<^verbatim>\<open>delete_rows(i)\<close> removes row \<open>i\<close>, \<^verbatim>\<open>insert_row(r, i)\<close> puts \<open>r\<close> at
  row \<open>i\<close> and moves the rows from there down, \<^verbatim>\<open>append_row(r)\<close> adds \<open>r\<close> after the
  last row.
\<close>

type_synonym worksheet = "string list list"

definition key_cell :: "string list \<Rightarrow> string" where
  "key_cell r = (case r of [] \<Rightarrow> [] | c # _ \<Rightarrow> c)"

definition col_values :: "worksheet \<Rightarrow> string list" where
  "col_values ws = rev (dropWhile (\<lambda>c. c = []) (rev (map key_cell ws)))"

definition delete_rows :: "worksheet \<Rightarrow> nat \<Rightarrow> worksheet" where
  "delete_rows ws i = take (i - 1) ws @ drop i ws"

definition insert_row :: "worksheet \<Rightarrow> string list \<Rightarrow> nat \<Rightarrow> worksheet" where
  "insert_row ws r i = take (i - 1) ws @ [r] @ drop (i - 1) ws"

definition append_row :: "worksheet \<Rightarrow> string list \<Rightarrow> worksheet" where
  "append_row ws r = ws @ [r]"

text \<open>
  \<^verbatim>\<open>xs.index(x)\<close>, the position of the first \<open>x\<close>. The program calls it only under
  \<^verbatim>\<open>x in xs\<close>; for an absent \<open>x\<close> (where Python raises) the value is \<open>length xs\<close>.
\<close>

fun index_of :: "'a list \<Rightarrow> 'a \<Rightarrow> nat" where
  "index_of [] x = 0"
| "index_of (y # ys) x = (if y = x then 0 else Suc (index_of ys x))"

definition update_doentes_sheet :: "worksheet \<Rightarrow> string \<Rightarrow> string list \<Rightarrow> worksheet" where
  "update_doentes_sheet ws n_processo row =
     (let col_a = col_values ws in
      if n_processo \<in> set col_a then
        (let row_idx = index_of col_a n_processo + 1
         in insert_row (delete_rows ws row_idx) row row_idx)
      else append_row ws row)"

text \<open>A run of calls, each an identifier and a row, in order.\<close>

fun update_all :: "worksheet \<Rightarrow> (string \<times> string list) list \<Rightarrow> worksheet" where
  "update_all ws [] = ws"
| "update_all ws ((i, r) # cs) = update_all (update_doentes_sheet ws i r) cs"

text \<open>
  The upsert as the spec words it: the first row whose key cell is the identifier is
  replaced where it stands, and the row is added at the end when there is none.
  \<open>first_uses\<close> lists the identifiers of a run of calls in the order of their first use.
\<close>

fun replace_or_append :: "string \<Rightarrow> string list \<Rightarrow> worksheet \<Rightarrow> worksheet" where
  "replace_or_append i r [] = [r]"
| "replace_or_append i r (x # xs) =
     (if key_cell x = i then r # xs else x # replace_or_append i r xs)"

fun first_uses :: "'a list \<Rightarrow> 'a list" where
  "first_uses [] = []"
| "first_uses (x # xs) = x # removeAll x (first_uses xs)"

text \<open>
  A spreadsheet is the list of its worksheets by title. \<^verbatim>\<open>worksheet(name)\<close> is the
  first sheet of that title; \<^verbatim>\<open>WorksheetNotFound\<close> is \<open>None\<close>. \<^verbatim>\<open>add_worksheet\<close>
  adds an empty sheet after the others. The result is the spreadsheet afterwards and
  the rows of the sheet returned.
\<close>

type_synonym spreadsheet = "(string \<times> worksheet) list"

definition get_or_create_sheet ::
  "spreadsheet \<Rightarrow> string \<Rightarrow> string list \<Rightarrow> spreadsheet \<times> worksheet" where
  "get_or_create_sheet ss name headers =
     (case map_of ss name of
        Some ws \<Rightarrow> (ss, ws)
      | None \<Rightarrow> (let ws = append_row [] headers in (ss @ [(name, ws)], ws)))"

definition sheets_named :: "spreadsheet \<Rightarrow> string \<Rightarrow> nat" where
  "sheets_named ss name = length (filter (\<lambda>p. fst p = name) ss)"

definition rows_keyed :: "worksheet \<Rightarrow> string \<Rightarrow> nat" where
  "rows_keyed ws k = length (filter (\<lambda>r. key_cell r = k) ws)"

section \<open>Extraction and the pending record\<close>

text \<open>Whitespace as \<^verbatim>\<open>str.strip\<close> and \<^verbatim>\<open>\s\<close> see it, among the code points below 256.\<close>

definition is_space :: "char \<Rightarrow> bool" where
  "is_space c = (of_char c \<in> {9, 10, 11, 12, 13, 28, 29, 30, 31, 32, 133, 160 :: nat})"

definition lstrip :: "string \<Rightarrow> string" where
  "lstrip s = dropWhile is_space s"

definition rstrip :: "string \<Rightarrow> string" where
  "rstrip s = rev (dropWhile is_space (rev s))"

definition strip :: "string \<Rightarrow> string" where
  "strip s = rstrip (lstrip s)"

definition starts_with :: "string \<Rightarrow> string \<Rightarrow> bool" where
  "starts_with s p = (take (length p) s = p)"

definition ends_with :: "string \<Rightarrow> string \<Rightarrow> bool" where
  "ends_with s p = (length p \<le> length s \<and> drop (length s - length p) s = p)"

text \<open>
  \<^verbatim>\<open>re.sub(r"^```(?:json)?\s*", "", raw)\<close>: at the start only, three backquotes, then
  \<^verbatim>\<open>json\<close> if it is there, then all the whitespace that follows.
\<close>

definition strip_fence_start :: "string \<Rightarrow> string" where
  "strip_fence_start s =
     (if starts_with s ''```'' then
        (let r = drop 3 s in lstrip (if starts_with r ''json'' then drop 4 r else r))
      else s)"

text \<open>
  \<^verbatim>\<open>re.sub(r"\s*```$", "", raw)\<close>: three backquotes at the end, or before a newline that
  ends the text, go with the whitespace before them.
\<close>

definition strip_fence_end :: "string \<Rightarrow> string" where
  "strip_fence_end s =
     (if ends_with s ''```'' then rstrip (take (length s - 3) s)
      else if ends_with s (''```'' @ [CHR 0x0A]) then rstrip (take (length s - 4) s) @ [CHR 0x0A]
      else s)"

definition clean_reply :: "string \<Rightarrow> string" where
  "clean_reply raw = strip_fence_end (strip_fence_start (strip raw))"

text \<open>
  What \<^verbatim>\<open>json.loads\<close> can raise on a text: \<^verbatim>\<open>json.JSONDecodeError\<close> when the text
  is not JSON, \<^verbatim>\<open>RecursionError\<close> when its arrays and objects are nested too deep,
  and a plain \<^verbatim>\<open>ValueError\<close> when an integer in it has more digits than \<^verbatim>\<open>int\<close>
  converts.
\<close>

datatype loads_error = JSONDecodeError | RecursionError | ValueError

text \<open>
  What \<^verbatim>\<open>extract_with_gemini\<close> can raise, as \<^verbatim>\<open>main\<close> tells it apart:
  \<^verbatim>\<open>json.JSONDecodeError\<close> (the spec's \<^verbatim>\<open>MalformedExtractionOutput\<close>), caught by the
  first \<^verbatim>\<open>except\<close>, and every other exception, caught by the second one (the spec's
  \<^verbatim>\<open>ExtractionServiceError\<close>): an exception of the call to the service, and an
  exception of \<^verbatim>\<open>json.loads\<close> that is not a \<^verbatim>\<open>JSONDecodeError\<close>.
\<close>

datatype extraction_error = MalformedExtractionOutput | ExtractionServiceError

text \<open>
  \<open>loads\<close> is \<^verbatim>\<open>json.loads\<close>: the value decoded, or the exception raised.
  \<open>reply\<close> is the outcome of \<^verbatim>\<open>generate_content\<close>: the text of the response, or
  \<open>None\<close> when the call raised or the response has no text.
\<close>

definition extract_with_gemini ::
  "(string \<Rightarrow> loads_error + json) \<Rightarrow> string option \<Rightarrow> extraction_error + json" where
  "extract_with_gemini loads reply =
     (case reply of
        None \<Rightarrow> Inl ExtractionServiceError
      | Some raw \<Rightarrow>
          (case loads (clean_reply raw) of
             Inl JSONDecodeError \<Rightarrow> Inl MalformedExtractionOutput
           | Inl RecursionError \<Rightarrow> Inl ExtractionServiceError
           | Inl ValueError \<Rightarrow> Inl ExtractionServiceError
           | Inr v \<Rightarrow> Inr v))"

text \<open>
  The keys of \<^verbatim>\<open>st.session_state\<close> that hold the pending record; a key that is not
  set is \<open>None\<close>.
\<close>

record session =
  ss_extracted :: "json option"
  ss_n_processo :: "string option"
  ss_ready_to_save :: bool

datatype message = Success | ErrorNotJson | ErrorExtraction

text \<open>The extraction step of \<^verbatim>\<open>main\<close>, after the text of the files has been read.\<close>

definition process_extraction ::
  "(string \<Rightarrow> loads_error + json) \<Rightarrow> session \<Rightarrow> string \<Rightarrow> string option
     \<Rightarrow> session \<times> message" where
  "process_extraction loads st n_processo reply =
     (case extract_with_gemini loads reply of
        Inr extracted \<Rightarrow>
          (st\<lparr>ss_extracted := Some extracted, ss_n_processo := Some n_processo,
              ss_ready_to_save := True\<rparr>, Success)
      | Inl MalformedExtractionOutput \<Rightarrow> (st, ErrorNotJson)
      | Inl ExtractionServiceError \<Rightarrow> (st, ErrorExtraction))"

datatype pending = Idle | PendingReview

text \<open>The review is shown when \<^verbatim>\<open>ready_to_save\<close> is set and \<^verbatim>\<open>extracted\<close> is a key.\<close>

definition pending_state :: "session \<Rightarrow> pending" where
  "pending_state st =
     (if ss_ready_to_save st \<and> ss_extracted st \<noteq> None then PendingReview else Idle)"

section \<open>The rows in closed form\<close>

text \<open>
  Lookups that cannot raise: \<open>field x k\<close> is \<^verbatim>\<open>x.get(k)\<close> and \<open>subrec x k\<close> is
  \<^verbatim>\<open>x.get(k, {})\<close> on a dict \<open>x\<close>. \<open>doentes_ok\<close> and \<open>visitas_ok\<close> are the
  records on which no lookup of the builders raises: the top-level key holds a dict,
  each sub-record is a dict or absent, each medication class is a dict, absent or a
  value Python counts as false.
\<close>

definition is_obj :: "json \<Rightarrow> bool" where
  "is_obj x = (case x of JObj kvs \<Rightarrow> True | _ \<Rightarrow> False)"

definition field :: "json \<Rightarrow> string \<Rightarrow> json" where
  "field x k =
     (case x of
        JObj kvs \<Rightarrow> (case map_of kvs k of None \<Rightarrow> JNull | Some v \<Rightarrow> v)
      | _ \<Rightarrow> JNull)"

definition subrec :: "json \<Rightarrow> string \<Rightarrow> json" where
  "subrec x k =
     (case x of
        JObj kvs \<Rightarrow> (case map_of kvs k of None \<Rightarrow> JObj [] | Some v \<Rightarrow> v)
      | _ \<Rightarrow> JObj [])"

definition med_entry :: "json \<Rightarrow> string \<Rightarrow> json" where
  "med_entry d c = py_or (field (subrec d ''medicacao'') c) (JObj [])"

definition med_entry_ok :: "json \<Rightarrow> bool" where
  "med_entry_ok v = (if truthy v then is_obj v else True)"

definition DOENTE_SUBRECORDS :: "string list" where
  "DOENTE_SUBRECORDS = [''frcv'', ''comorbilidades'', ''ic'', ''drc'', ''pocus'']"

definition VISITA_SUBRECORDS :: "string list" where
  "VISITA_SUBRECORDS = [''analises'', ''sintomas'', ''exame_fisico'']"

definition doente_ok :: "json \<Rightarrow> bool" where
  "doente_ok d =
     (is_obj d
      \<and> list_all (\<lambda>s. is_obj (subrec d s)) (DOENTE_SUBRECORDS @ [''medicacao''])
      \<and> list_all (\<lambda>c. med_entry_ok (field (subrec d ''medicacao'') c)) MED_KEYS)"

definition doentes_ok :: "json \<Rightarrow> bool" where
  "doentes_ok e = (case subscript e ''doente'' of Inl _ \<Rightarrow> False | Inr d \<Rightarrow> doente_ok d)"

definition visita_ok :: "json \<Rightarrow> bool" where
  "visita_ok v = (is_obj v \<and> list_all (\<lambda>s. is_obj (subrec v s)) VISITA_SUBRECORDS)"

definition visitas_ok :: "json \<Rightarrow> bool" where
  "visitas_ok e = (case subscript e ''visita'' of Inl _ \<Rightarrow> False | Inr v \<Rightarrow> visita_ok v)"

definition get_cells :: "(json \<Rightarrow> string) \<Rightarrow> json \<Rightarrow> string list \<Rightarrow> string list" where
  "get_cells R x ks = map (\<lambda>k. sv R (field x k)) ks"

definition med_cells :: "(json \<Rightarrow> string) \<Rightarrow> json \<Rightarrow> string \<Rightarrow> string list" where
  "med_cells R d c = get_cells R (med_entry d c) [''presente'', ''farmaco'', ''dose'']"

definition age_cell :: "(json \<Rightarrow> string) \<Rightarrow> pydate \<Rightarrow> json \<Rightarrow> string" where
  "age_cell R today d =
     sv R (age_value (calculate_age today (py_or (field d ''data_nascimento'') (JStr []))))"

definition doentes_cells :: "(json \<Rightarrow> string) \<Rightarrow> pydate \<Rightarrow> string \<Rightarrow> json \<Rightarrow> string list" where
  "doentes_cells R today n_processo d =
     [n_processo] @ get_cells R d [''data_nascimento''] @ [age_cell R today d] @
     get_cells R d [''sexo'', ''localidade'', ''profissao'', ''frailty_cfs'', ''referenciacao''] @
     get_cells R (subrec d ''frcv'')
       [''dm2'', ''tabagismo'', ''hta'', ''dislipidemia'', ''obesidade'',
        ''saos'', ''sedentarismo'', ''hx_familiar_dc''] @
     get_cells R (subrec d ''comorbilidades'')
       [''dap'', ''dpoc'', ''doenca_hepatica'', ''hbp'', ''fa'', ''outras''] @
     get_cells R (subrec d ''ic'') [''tipo_fe'', ''etiologia'', ''feve_atual'', ''feve_trajetoria''] @
     get_cells R (subrec d ''drc'') [''grau'', ''albuminuria'', ''etiologia''] @
     get_cells R d [''fenotipo_congestao''] @
     get_cells R (subrec d ''pocus'') [''fe_pct'', ''ee_ratio'', ''linhas_b_n'', ''vci_mm''] @
     concat (map (med_cells R d) MED_KEYS) @
     [isoformat today]"

definition visitas_cells :: "(json \<Rightarrow> string) \<Rightarrow> string \<Rightarrow> json \<Rightarrow> string list" where
  "visitas_cells R n_processo v =
     [n_processo] @ get_cells R v [''data_consulta''] @
     get_cells R (subrec v ''analises'')
       [''ureia'', ''creatinina'', ''cistatina_c'', ''tfge_ckd_epi_crcist'',
        ''racu'', ''rpc'', ''na_urinario'',
        ''albumina'',
        ''alt'', ''ast'', ''ggt'', ''bilirrubina_total'',
        ''na'', ''k'', ''cl'', ''ca'', ''p'', ''mg'',
        ''pth'', ''vit_d'',
        ''nt_probnp'', ''bnp'', ''ca125'',
        ''hgb'', ''leucocitos'', ''plaquetas'',
        ''hco3'', ''ca_ionizado'',
        ''sumario_urina''] @
     get_cells R (subrec v ''sintomas'')
       [''nyha'', ''ccs'', ''ortopneia'', ''bendopneia'', ''edemas_mi'',
        ''claudicacao_intermitente'', ''palpitacoes''] @
     get_cells R (subrec v ''exame_fisico'')
       [''peso_kg'', ''altura_m'', ''imc'', ''ta_sist'', ''ta_diast'', ''fc'', ''spo2'']"

text \<open>
  Writing into a record along a path of keys, as \<^verbatim>\<open>x[k] = v\<close> does at the last key
  (a key that is there keeps its place, a new key goes last), a missing dict on the way
  being created; and whether the path leads to a key that is not there.
\<close>

fun set_at :: "string list \<Rightarrow> json \<Rightarrow> json \<Rightarrow> json" where
  "set_at [] v x = v"
| "set_at (k # ks) v x =
     (case x of
        JObj kvs \<Rightarrow> JObj (AList.update k (set_at ks v (subrec x k)) kvs)
      | _ \<Rightarrow> x)"

fun absent_at :: "string list \<Rightarrow> json \<Rightarrow> bool" where
  "absent_at [] x = False"
| "absent_at (k # ks) x =
     (case x of
        JObj kvs \<Rightarrow> (case map_of kvs k of None \<Rightarrow> True | Some c \<Rightarrow> absent_at ks c)
      | _ \<Rightarrow> False)"

text \<open>
  The places of the record the builders read by \<^verbatim>\<open>get\<close> with the default
  \<^verbatim>\<open>None\<close>: a field of the patient or of the visit that is not a sub-record, a
  field of a sub-record, a medication class and a field of a medication class.
\<close>

definition leaf_path :: "string list \<Rightarrow> bool" where
  "leaf_path p =
     (case p of
        [a, k] \<Rightarrow>
          (a = ''doente'' \<and> k \<notin> set (''medicacao'' # DOENTE_SUBRECORDS))
          \<or> (a = ''visita'' \<and> k \<notin> set VISITA_SUBRECORDS)
      | [a, s, k] \<Rightarrow>
          (a = ''doente'' \<and> s \<in> set (''medicacao'' # DOENTE_SUBRECORDS))
          \<or> (a = ''visita'' \<and> s \<in> set VISITA_SUBRECORDS)
      | [a, s, c, f] \<Rightarrow> a = ''doente'' \<and> s = ''medicacao''
      | _ \<Rightarrow> False)"

text \<open>The places of the sub-records, which the builders read with the default \<^verbatim>\<open>{}\<close>.\<close>

definition subrecord_path :: "string list \<Rightarrow> bool" where
  "subrecord_path p =
     (case p of
        [a, s] \<Rightarrow>
          (a = ''doente'' \<and> s \<in> set (''medicacao'' # DOENTE_SUBRECORDS))
          \<or> (a = ''visita'' \<and> s \<in> set VISITA_SUBRECORDS)
      | _ \<Rightarrow> False)"

text \<open>
  What a path of keys leads to when every key is read by \<^verbatim>\<open>get\<close>: \<^verbatim>\<open>None\<close> from the
  first key that is absent on.
\<close>

fun path_value :: "string list \<Rightarrow> json \<Rightarrow> json" where
  "path_value [] x = x"
| "path_value (k # ks) x = path_value ks (field x k)"

text \<open>
  The path that each column of a row is read from, in the order of the builder; \<open>[]\<close>
  for the columns that are not a field of the record: the identifier, the age and the
  date of the update.
\<close>

definition DOENTES_PATHS :: "string list list" where
  "DOENTES_PATHS =
     [[]] @ [[''doente'', ''data_nascimento'']] @ [[]] @
     map (\<lambda>k. [''doente'', k])
       [''sexo'', ''localidade'', ''profissao'', ''frailty_cfs'', ''referenciacao''] @
     map (\<lambda>k. [''doente'', ''frcv'', k])
       [''dm2'', ''tabagismo'', ''hta'', ''dislipidemia'', ''obesidade'',
        ''saos'', ''sedentarismo'', ''hx_familiar_dc''] @
     map (\<lambda>k. [''doente'', ''comorbilidades'', k])
       [''dap'', ''dpoc'', ''doenca_hepatica'', ''hbp'', ''fa'', ''outras''] @
     map (\<lambda>k. [''doente'', ''ic'', k])
       [''tipo_fe'', ''etiologia'', ''feve_atual'', ''feve_trajetoria''] @
     map (\<lambda>k. [''doente'', ''drc'', k]) [''grau'', ''albuminuria'', ''etiologia''] @
     [[''doente'', ''fenotipo_congestao'']] @
     map (\<lambda>k. [''doente'', ''pocus'', k]) [''fe_pct'', ''ee_ratio'', ''linhas_b_n'', ''vci_mm''] @
     concat (map (\<lambda>c. map (\<lambda>f. [''doente'', ''medicacao'', c, f])
                          [''presente'', ''farmaco'', ''dose'']) MED_KEYS) @
     [[]]"

definition VISITAS_PATHS :: "string list list" where
  "VISITAS_PATHS =
     [[]] @ [[''visita'', ''data_consulta'']] @
     map (\<lambda>k. [''visita'', ''analises'', k])
       [''ureia'', ''creatinina'', ''cistatina_c'', ''tfge_ckd_epi_crcist'',
        ''racu'', ''rpc'', ''na_urinario'',
        ''albumina'',
        ''alt'', ''ast'', ''ggt'', ''bilirrubina_total'',
        ''na'', ''k'', ''cl'', ''ca'', ''p'', ''mg'',
        ''pth'', ''vit_d'',
        ''nt_probnp'', ''bnp'', ''ca125'',
        ''hgb'', ''leucocitos'', ''plaquetas'',
        ''hco3'', ''ca_ionizado'',
        ''sumario_urina''] @
     map (\<lambda>k. [''visita'', ''sintomas'', k])
       [''nyha'', ''ccs'', ''ortopneia'', ''bendopneia'', ''edemas_mi'',
        ''claudicacao_intermitente'', ''palpitacoes''] @
     map (\<lambda>k. [''visita'', ''exame_fisico'', k])
       [''peso_kg'', ''altura_m'', ''imc'', ''ta_sist'', ''ta_diast'', ''fc'', ''spo2'']"

section \<open>Leaf stringification\<close>

text \<open>
  C4. \<open>sv\<close> maps null to the empty string, true to \<^verbatim>\<open>Sim\<close>, false to the
  negative token, and every other value (an integer, a string, a float, a list, a dict:
  the remaining constructors) to what \<^verbatim>\<open>str\<close> gives, with nothing added; an
  integer keeps its decimal digits. The two boolean tokens are non-empty and differ, so
  two booleans with the same cell are the same boolean.
\<close>

theorem sv_leaf_rules:
  "sv R JNull = []
   \<and> sv R (JBool True) = ''Sim''
   \<and> sv R (JBool False) = [CHR ''N'', CHR 0xE3, CHR ''o'']
   \<and> sv R (JInt i) = py_str R (JInt i) \<and> sv R (JInt i) = str_int i
   \<and> sv R (JStr s) = py_str R (JStr s) \<and> sv R (JStr s) = s
   \<and> sv R (JFloat w) = py_str R (JFloat w)
   \<and> sv R (JArr xs) = py_str R (JArr xs)
   \<and> sv R (JObj kvs) = py_str R (JObj kvs)
   \<and> sv R (JInt 4) = ''4'' \<and> sv R (JInt (- 12)) = ''-12''
   \<and> sv R (JBool True) \<noteq> [] \<and> sv R (JBool False) \<noteq> []
   \<and> sv R (JBool True) \<noteq> sv R (JBool False)
   \<and> ((sv R (JBool a) = sv R (JBool b)) = (a = b))"
proof -
  have digits: "str_int 4 = ''4''" "str_int (- 12) = ''-12''"
    by code_simp+
  have inj: "(sv R (JBool a) = sv R (JBool b)) = (a = b)"
    by (cases a; cases b) (simp_all add: Nao_def)
  show ?thesis
    using digits inj by (simp add: Nao_def)
qed

section \<open>The builders return the closed form\<close>


lemma cells_obj: "cells R (JObj kvs) ks = Inr (get_cells R (JObj kvs) ks)"
  by (induction ks) (simp_all add: get_cells_def cell_def get_def field_def)

lemma cells_is_obj: "is_obj x \<Longrightarrow> cells R x ks = Inr (get_cells R x ks)"
  by (cases x) (simp_all add: is_obj_def cells_obj)

lemma get_default_obj: "get_default (JObj kvs) k (JObj []) = Inr (subrec (JObj kvs) k)"
  by (simp add: subrec_def)

lemma get_obj: "get (JObj kvs) k = Inr (field (JObj kvs) k)"
  by (simp add: get_def field_def)

lemma py_or_obj: "med_entry_ok v \<Longrightarrow> is_obj (py_or v (JObj []))"
  by (simp add: med_entry_ok_def py_or_def is_obj_def split: if_splits)

lemma med3_ok:
  assumes "is_obj (subrec d ''medicacao'')" "med_entry_ok (field (subrec d ''medicacao'') c)"
  shows "med3 R (subrec d ''medicacao'') c = Inr (med_cells R d c)"
proof -
  obtain kvs where m: "subrec d ''medicacao'' = JObj kvs"
    using assms(1) by (cases "subrec d ''medicacao''") (simp_all add: is_obj_def)
  show ?thesis
    using assms(2) py_or_obj [OF assms(2)]
    by (simp add: med3_def m get_obj med_cells_def med_entry_def cells_is_obj del: cells.simps)
qed

lemma build_doentes_row_ok:
  assumes "doentes_ok e"
  shows "build_doentes_row R today n e = Inr (doentes_cells R today n (field e ''doente''))"
proof -
  obtain ekvs where e: "e = JObj ekvs"
    using assms by (cases e) (simp_all add: doentes_ok_def doente_ok_def)
  obtain d where sd: "subscript e ''doente'' = Inr d"
    using assms by (cases "subscript e ''doente''") (simp_all add: doentes_ok_def doente_ok_def)
  have fd: "field e ''doente'' = d"
    using sd by (simp add: e field_def split: option.splits)
  from assms sd have ok: "is_obj d"
    "list_all (\<lambda>s. is_obj (subrec d s)) (DOENTE_SUBRECORDS @ [''medicacao''])"
    "list_all (\<lambda>c. med_entry_ok (field (subrec d ''medicacao'') c)) MED_KEYS"
    by (simp_all add: doentes_ok_def doente_ok_def)
  obtain dkvs where d: "d = JObj dkvs"
    using ok(1) by (cases d) (simp_all add: is_obj_def)
  have subs: "is_obj (subrec d ''frcv'')" "is_obj (subrec d ''comorbilidades'')"
    "is_obj (subrec d ''ic'')" "is_obj (subrec d ''drc'')" "is_obj (subrec d ''pocus'')"
    "is_obj (subrec d ''medicacao'')"
    using ok(2) by (simp_all add: DOENTE_SUBRECORDS_def)
  have meds: "\<And>c. c \<in> set MED_KEYS \<Longrightarrow> med3 R (subrec d ''medicacao'') c = Inr (med_cells R d c)"
    using ok(3) subs(6) by (simp add: med3_ok list_all_iff)
  have gd: "\<And>k. get_default d k (JObj []) = Inr (subrec d k)"
    unfolding d by (rule get_default_obj)
  have g: "\<And>k. get d k = Inr (field d k)"
    unfolding d by (rule get_obj)
  show ?thesis
    unfolding build_doentes_row_def sd fd
    using subs
    by (simp add: gd g cells_is_obj ok(1) meds MED_KEYS_def doentes_cells_def age_cell_def
          del: cells.simps get_default.simps)
qed


lemma build_visitas_row_ok:
  assumes "visitas_ok e"
  shows "build_visitas_row R n e = Inr (visitas_cells R n (field e ''visita''))"
proof -
  obtain ekvs where e: "e = JObj ekvs"
    using assms by (cases e) (simp_all add: visitas_ok_def visita_ok_def)
  obtain v where sv: "subscript e ''visita'' = Inr v"
    using assms by (cases "subscript e ''visita''") (simp_all add: visitas_ok_def visita_ok_def)
  have fv: "field e ''visita'' = v"
    using sv by (simp add: e field_def split: option.splits)
  from assms sv have ok: "is_obj v" "list_all (\<lambda>s. is_obj (subrec v s)) VISITA_SUBRECORDS"
    by (simp_all add: visitas_ok_def visita_ok_def)
  obtain vkvs where v: "v = JObj vkvs"
    using ok(1) by (cases v) (simp_all add: is_obj_def)
  have subs: "is_obj (subrec v ''analises'')" "is_obj (subrec v ''sintomas'')"
    "is_obj (subrec v ''exame_fisico'')"
    using ok(2) by (simp_all add: VISITA_SUBRECORDS_def)
  have gd: "\<And>k. get_default v k (JObj []) = Inr (subrec v k)"
    unfolding v by (rule get_default_obj)
  show ?thesis
    unfolding build_visitas_row_def sv fv
    using subs
    by (simp add: gd cells_is_obj ok(1) visitas_cells_def del: cells.simps get_default.simps)
qed

lemma concat_results_Inr:
  "concat_results ps = Inr xs \<Longrightarrow> p \<in> set ps \<Longrightarrow> \<exists>ys. p = Inr ys"
  by (induction ps arbitrary: xs) (auto split: sum.splits)

lemma cells_Inr_obj: "cells R x (k # ks) = Inr cs \<Longrightarrow> is_obj x"
  by (cases x) (simp_all add: cell_def get_def is_obj_def)

lemma get_default_Inr_obj:
  "get_default x k dflt = Inr v \<Longrightarrow>
   is_obj x \<and> v = (case x of JObj kvs \<Rightarrow> (case map_of kvs k of None \<Rightarrow> dflt | Some w \<Rightarrow> w)
                                | _ \<Rightarrow> dflt)"
  by (cases x) (auto simp: is_obj_def)

lemma med3_Inr: "med3 R med c = Inr cs \<Longrightarrow> is_obj med \<and> med_entry_ok (field med c)"
proof -
  assume a: "med3 R med c = Inr cs"
  then obtain kvs where m: "med = JObj kvs"
    by (cases med) (simp_all add: med3_def get_def)
  from a have "cells R (py_or (field med c) (JObj [])) [''presente'', ''farmaco'', ''dose''] = Inr cs"
    by (simp add: med3_def m get_obj del: cells.simps)
  then have "is_obj (py_or (field med c) (JObj []))"
    by (rule cells_Inr_obj)
  then have "med_entry_ok (field med c)"
    by (simp add: py_or_def med_entry_ok_def split: if_splits)
  then show ?thesis by (simp add: m is_obj_def)
qed

lemma build_doentes_row_Inr_ok:
  assumes "build_doentes_row R today n e = Inr row"
  shows "doentes_ok e"
proof -
  from assms obtain d frcv co ic drc poc med dn where
    sd: "subscript e ''doente'' = Inr d" and
    g: "get_default d ''frcv'' (JObj []) = Inr frcv"
       "get_default d ''comorbilidades'' (JObj []) = Inr co"
       "get_default d ''ic'' (JObj []) = Inr ic"
       "get_default d ''drc'' (JObj []) = Inr drc"
       "get_default d ''pocus'' (JObj []) = Inr poc"
       "get_default d ''medicacao'' (JObj []) = Inr med" and
    c: "concat_results
          [Inr [n],
           cells R d [''data_nascimento''],
           Inr [sv R (age_value (calculate_age today (py_or dn (JStr []))))],
           cells R d [''sexo'', ''localidade'', ''profissao'', ''frailty_cfs'', ''referenciacao''],
           cells R frcv [''dm2'', ''tabagismo'', ''hta'', ''dislipidemia'', ''obesidade'',
                         ''saos'', ''sedentarismo'', ''hx_familiar_dc''],
           cells R co [''dap'', ''dpoc'', ''doenca_hepatica'', ''hbp'', ''fa'', ''outras''],
           cells R ic [''tipo_fe'', ''etiologia'', ''feve_atual'', ''feve_trajetoria''],
           cells R drc [''grau'', ''albuminuria'', ''etiologia''],
           cells R d [''fenotipo_congestao''],
           cells R poc [''fe_pct'', ''ee_ratio'', ''linhas_b_n'', ''vci_mm''],
           med3 R med ''rasi'', med3 R med ''mra'', med3 R med ''isglt2'', med3 R med ''glp1ra'',
           med3 R med ''estatina'', med3 R med ''diuretico_ansa'', med3 R med ''diuretico_tiazida'',
           med3 R med ''acetazolamida'', med3 R med ''beta_bloqueante'',
           med3 R med ''antiagregante'', med3 R med ''anticoagulante'', med3 R med ''ivabradina'',
           Inr [isoformat today]] = Inr row"
    unfolding build_doentes_row_def
    by (simp split: sum.splits del: cells.simps get_default.simps concat_results.simps)
  have dobj: "is_obj d" using g(1) get_default_Inr_obj by blast
  then obtain dkvs where d: "d = JObj dkvs" by (cases d) (simp_all add: is_obj_def)
  have sub: "subrec d ''frcv'' = frcv" "subrec d ''comorbilidades'' = co" "subrec d ''ic'' = ic"
    "subrec d ''drc'' = drc" "subrec d ''pocus'' = poc" "subrec d ''medicacao'' = med"
    using g by (simp_all add: d subrec_def)
  have piece:
    "\<And>p. p \<in> set [cells R frcv [''dm2'', ''tabagismo'', ''hta'', ''dislipidemia'', ''obesidade'',
                                  ''saos'', ''sedentarismo'', ''hx_familiar_dc''],
                    cells R co [''dap'', ''dpoc'', ''doenca_hepatica'', ''hbp'', ''fa'', ''outras''],
                    cells R ic [''tipo_fe'', ''etiologia'', ''feve_atual'', ''feve_trajetoria''],
                    cells R drc [''grau'', ''albuminuria'', ''etiologia''],
                    cells R poc [''fe_pct'', ''ee_ratio'', ''linhas_b_n'', ''vci_mm'']]
      \<Longrightarrow> \<exists>ys. p = Inr ys"
    using concat_results_Inr [OF c] by (simp del: cells.simps) blast
  have objs: "is_obj frcv" "is_obj co" "is_obj ic" "is_obj drc" "is_obj poc"
    using piece cells_Inr_obj by (simp_all del: cells.simps) (blast+)?
  have mp: "\<And>k. k \<in> set MED_KEYS \<Longrightarrow> \<exists>ys. med3 R med k = Inr ys"
    using concat_results_Inr [OF c] by (simp add: MED_KEYS_def del: cells.simps) blast
  have mk: "\<And>k. k \<in> set MED_KEYS \<Longrightarrow> is_obj med \<and> med_entry_ok (field med k)"
    using mp med3_Inr by blast
  have "is_obj med" using mk [of "''rasi''"] by (simp add: MED_KEYS_def)
  then show ?thesis
    using dobj objs mk
    by (simp add: doentes_ok_def doente_ok_def sd sub DOENTE_SUBRECORDS_def list_all_iff)
qed

lemma length_doentes_cells: "length (doentes_cells R today n d) = 71"
  by (simp add: doentes_cells_def get_cells_def med_cells_def MED_KEYS_def)

lemma length_visitas_cells: "length (visitas_cells R n v) = 45"
  by (simp add: visitas_cells_def get_cells_def)

lemma length_HEADERS_DOENTES: "length HEADERS_DOENTES = 71"
  by (simp add: HEADERS_DOENTES_def)

lemma length_HEADERS_VISITAS: "length HEADERS_VISITAS = 45"
  by (simp add: HEADERS_VISITAS_def)

lemma build_visitas_row_Inr_ok:
  assumes "build_visitas_row R n e = Inr row"
  shows "visitas_ok e"
proof -
  from assms obtain v a s ef where
    sv: "subscript e ''visita'' = Inr v" and
    g: "get_default v ''analises'' (JObj []) = Inr a"
       "get_default v ''sintomas'' (JObj []) = Inr s"
       "get_default v ''exame_fisico'' (JObj []) = Inr ef" and
    c: "concat_results
          [Inr [n],
           cells R v [''data_consulta''],
           cells R a [''ureia'', ''creatinina'', ''cistatina_c'', ''tfge_ckd_epi_crcist'',
                      ''racu'', ''rpc'', ''na_urinario'',
                      ''albumina'',
                      ''alt'', ''ast'', ''ggt'', ''bilirrubina_total'',
                      ''na'', ''k'', ''cl'', ''ca'', ''p'', ''mg'',
                      ''pth'', ''vit_d'',
                      ''nt_probnp'', ''bnp'', ''ca125'',
                      ''hgb'', ''leucocitos'', ''plaquetas'',
                      ''hco3'', ''ca_ionizado'',
                      ''sumario_urina''],
           cells R s [''nyha'', ''ccs'', ''ortopneia'', ''bendopneia'', ''edemas_mi'',
                      ''claudicacao_intermitente'', ''palpitacoes''],
           cells R ef [''peso_kg'', ''altura_m'', ''imc'', ''ta_sist'', ''ta_diast'', ''fc'', ''spo2'']]
        = Inr row"
    unfolding build_visitas_row_def
    by (simp split: sum.splits del: cells.simps get_default.simps concat_results.simps)
  have vobj: "is_obj v" using g(1) get_default_Inr_obj by blast
  then obtain vkvs where v: "v = JObj vkvs" by (cases v) (simp_all add: is_obj_def)
  have sub: "subrec v ''analises'' = a" "subrec v ''sintomas'' = s" "subrec v ''exame_fisico'' = ef"
    using g by (simp_all add: v subrec_def)
  have piece:
    "\<And>p. p \<in> set [cells R a [''ureia'', ''creatinina'', ''cistatina_c'', ''tfge_ckd_epi_crcist'',
                      ''racu'', ''rpc'', ''na_urinario'',
                      ''albumina'',
                      ''alt'', ''ast'', ''ggt'', ''bilirrubina_total'',
                      ''na'', ''k'', ''cl'', ''ca'', ''p'', ''mg'',
                      ''pth'', ''vit_d'',
                      ''nt_probnp'', ''bnp'', ''ca125'',
                      ''hgb'', ''leucocitos'', ''plaquetas'',
                      ''hco3'', ''ca_ionizado'',
                      ''sumario_urina''],
           cells R s [''nyha'', ''ccs'', ''ortopneia'', ''bendopneia'', ''edemas_mi'',
                      ''claudicacao_intermitente'', ''palpitacoes''],
           cells R ef [''peso_kg'', ''altura_m'', ''imc'', ''ta_sist'', ''ta_diast'', ''fc'', ''spo2'']]
      \<Longrightarrow> \<exists>ys. p = Inr ys"
    using concat_results_Inr [OF c] by (simp del: cells.simps) blast?
  have objs: "is_obj a" "is_obj s" "is_obj ef"
    using piece cells_Inr_obj by (simp_all del: cells.simps) (blast+)?
  then show ?thesis
    using vobj by (simp add: visitas_ok_def visita_ok_def sv sub VISITA_SUBRECORDS_def)
qed

section \<open>Row length\<close>

text \<open>
  C1. Every row \<open>build_doentes_row\<close> returns has the length of \<open>HEADERS_DOENTES\<close> and
  every row \<open>build_visitas_row\<close> returns has the length of \<open>HEADERS_VISITAS\<close>, whatever
  the identifier. The builders return a row on every record whose \<^verbatim>\<open>doente\<close> and
  \<^verbatim>\<open>visita\<close> hold dicts, whose sub-records are dicts or absent and whose medication
  classes are dicts, absent or values Python counts as false (\<open>doentes_ok\<close>,
  \<open>visitas_ok\<close>), the leaf fields being present, absent or null in any combination; and
  on no other record.
\<close>

theorem rows_have_header_length:
  "(\<forall>row. build_doentes_row R today n e = Inr row \<longrightarrow> length row = length HEADERS_DOENTES)
   \<and> (\<forall>row. build_visitas_row R n e = Inr row \<longrightarrow> length row = length HEADERS_VISITAS)
   \<and> ((\<exists>row. build_doentes_row R today n e = Inr row) = doentes_ok e)
   \<and> ((\<exists>row. build_visitas_row R n e = Inr row) = visitas_ok e)"
proof -
  have d: "build_doentes_row R today n e = Inr row \<Longrightarrow> length row = length HEADERS_DOENTES"
    for row
    using build_doentes_row_ok [OF build_doentes_row_Inr_ok, of R today n e row R today n]
    by (simp add: length_doentes_cells length_HEADERS_DOENTES)
  have v: "build_visitas_row R n e = Inr row \<Longrightarrow> length row = length HEADERS_VISITAS" for row
    using build_visitas_row_ok [OF build_visitas_row_Inr_ok, of R n e row R n]
    by (simp add: length_visitas_cells length_HEADERS_VISITAS)
  have dk: "(\<exists>row. build_doentes_row R today n e = Inr row) = doentes_ok e"
    using build_doentes_row_ok build_doentes_row_Inr_ok by blast
  have vk: "(\<exists>row. build_visitas_row R n e = Inr row) = visitas_ok e"
    using build_visitas_row_ok build_visitas_row_Inr_ok by blast
  show ?thesis using d v dk vk by blast
qed

theorem rows_have_header_length_witness:
  "doentes_ok (JObj [(''doente'', JObj [(''sexo'', JStr ''M''), (''frailty_cfs'', JNull),
                                        (''ic'', JObj [(''tipo_fe'', JStr ''FEp'')])]),
                     (''visita'', JObj [(''sintomas'', JObj [(''nyha'', JInt 2)])])])
   \<and> visitas_ok (JObj [(''doente'', JObj [(''sexo'', JStr ''M''), (''frailty_cfs'', JNull),
                                          (''ic'', JObj [(''tipo_fe'', JStr ''FEp'')])]),
                       (''visita'', JObj [(''sintomas'', JObj [(''nyha'', JInt 2)])])])
   \<and> (\<exists>row. build_doentes_row (\<lambda>v. []) \<lparr>year = 2024, month = 3, day = 9\<rparr> ''123456''
               (JObj [(''doente'', JObj [(''sexo'', JStr ''M''), (''frailty_cfs'', JNull),
                                         (''ic'', JObj [(''tipo_fe'', JStr ''FEp'')])]),
                      (''visita'', JObj [(''sintomas'', JObj [(''nyha'', JInt 2)])])]) = Inr row
             \<and> length row = length HEADERS_DOENTES)
   \<and> (\<exists>row. build_visitas_row (\<lambda>v. []) ''123456''
               (JObj [(''doente'', JObj [(''sexo'', JStr ''M''), (''frailty_cfs'', JNull),
                                         (''ic'', JObj [(''tipo_fe'', JStr ''FEp'')])]),
                      (''visita'', JObj [(''sintomas'', JObj [(''nyha'', JInt 2)])])]) = Inr row
             \<and> length row = length HEADERS_VISITAS)"
proof -
  let ?e = "JObj [(''doente'', JObj [(''sexo'', JStr ''M''), (''frailty_cfs'', JNull),
                                     (''ic'', JObj [(''tipo_fe'', JStr ''FEp'')])]),
                  (''visita'', JObj [(''sintomas'', JObj [(''nyha'', JInt 2)])])]"
  have okd: "doentes_ok ?e"
    by (simp add: doentes_ok_def doente_ok_def is_obj_def subrec_def field_def med_entry_ok_def
        DOENTE_SUBRECORDS_def MED_KEYS_def)
  have okv: "visitas_ok ?e"
    by (simp add: visitas_ok_def visita_ok_def is_obj_def subrec_def VISITA_SUBRECORDS_def)
  show ?thesis
    using okd okv
      rows_have_header_length [of "\<lambda>v. []" "\<lparr>year = 2024, month = 3, day = 9\<rparr>" "''123456''" ?e]
    by blast
qed

section \<open>The patient-state table\<close>

text \<open>
  For an identifier that is not the empty string, \<open>update_doentes_sheet\<close> is
  \<open>replace_or_append\<close>: the cells that \<open>col_values\<close> leaves out are empty, so the
  search of the key column finds the first row of that key or none.
\<close>

lemma index_of_less: "x \<in> set xs \<Longrightarrow> index_of xs x < length xs"
  by (induction xs) auto

lemma index_of_nth: "x \<in> set xs \<Longrightarrow> xs ! index_of xs x = x"
  by (induction xs) auto

lemma index_of_first: "j < index_of xs x \<Longrightarrow> xs ! j \<noteq> x"
proof (induction xs arbitrary: j)
  case Nil
  then show ?case by simp
next
  case (Cons y ys)
  then show ?case by (cases j) (auto split: if_splits)
qed

lemma index_of_append: "x \<in> set xs \<Longrightarrow> index_of (xs @ ys) x = index_of xs x"
  by (induction xs) auto

lemma trim_decomp:
  "xs = rev (dropWhile P (rev xs)) @ rev (takeWhile P (rev xs))"
proof -
  have "xs = rev (takeWhile P (rev xs) @ dropWhile P (rev xs))" by simp
  also have "\<dots> = rev (dropWhile P (rev xs)) @ rev (takeWhile P (rev xs))"
    by (rule rev_append)
  finally show ?thesis .
qed

lemma filter_removeAll_dropped: "\<not> P i \<Longrightarrow> filter P (removeAll i F) = filter P F"
  by (induction F) auto

lemma filter_notin_snoc:
  "filter (\<lambda>j. j \<notin> set (K @ [i])) F = filter (\<lambda>j. j \<notin> set K) (removeAll i F)"
  by (induction F) auto

lemma col_values_mem:
  assumes "i \<noteq> []"
  shows "i \<in> set (col_values ws) \<longleftrightarrow> i \<in> set (map key_cell ws)"
proof -
  let ?P = "\<lambda>c::string. c = []"
  let ?K = "map key_cell ws"
  have d: "?K = col_values ws @ rev (takeWhile ?P (rev ?K))"
    unfolding col_values_def by (rule trim_decomp)
  have "i \<notin> set (takeWhile ?P (rev ?K))"
    using assms by (auto dest: set_takeWhileD)
  then show ?thesis
    using d by (metis Un_iff set_append set_rev)
qed

lemma col_values_index:
  assumes "i \<noteq> []" "i \<in> set (map key_cell ws)"
  shows "index_of (col_values ws) i = index_of (map key_cell ws) i"
proof -
  let ?P = "\<lambda>c::string. c = []"
  let ?K = "map key_cell ws"
  have d: "?K = col_values ws @ rev (takeWhile ?P (rev ?K))"
    unfolding col_values_def by (rule trim_decomp)
  have m: "i \<in> set (col_values ws)"
    using assms col_values_mem by blast
  show ?thesis
    using index_of_append [OF m, of "rev (takeWhile ?P (rev ?K))"] d by simp
qed

lemma update_present:
  assumes "i \<noteq> []" "i \<in> set (map key_cell ws)"
  shows "update_doentes_sheet ws i r = ws[index_of (map key_cell ws) i := r]"
proof -
  let ?p = "index_of (map key_cell ws) i"
  have p: "?p < length ws"
    using index_of_less [OF assms(2)] by simp
  have m: "i \<in> set (col_values ws)"
    using assms col_values_mem by blast
  have "update_doentes_sheet ws i r = insert_row (delete_rows ws (?p + 1)) r (?p + 1)"
    using m col_values_index [OF assms] by (simp add: update_doentes_sheet_def Let_def)
  also have "\<dots> = take ?p ws @ [r] @ drop (Suc ?p) ws"
    using p by (simp add: insert_row_def delete_rows_def min_def)
  also have "\<dots> = ws[?p := r]"
    using p by (simp add: upd_conv_take_nth_drop)
  finally show ?thesis .
qed

lemma update_absent:
  assumes "i \<noteq> []" "i \<notin> set (map key_cell ws)"
  shows "update_doentes_sheet ws i r = ws @ [r]"
  using assms col_values_mem [OF assms(1), of ws]
  by (simp add: update_doentes_sheet_def Let_def append_row_def)

lemma replace_or_append_alt:
  "replace_or_append i r ws =
     (if i \<in> set (map key_cell ws) then ws[index_of (map key_cell ws) i := r] else ws @ [r])"
  by (induction ws) auto

lemma update_doentes_sheet_eq:
  "i \<noteq> [] \<Longrightarrow> update_doentes_sheet ws i r = replace_or_append i r ws"
  by (simp add: replace_or_append_alt update_present update_absent)

lemma keys_replace_or_append:
  "key_cell r = i \<Longrightarrow>
   map key_cell (replace_or_append i r ws) =
     (if i \<in> set (map key_cell ws) then map key_cell ws else map key_cell ws @ [i])"
  by (induction ws) auto

lemma find_replace_or_append:
  "key_cell r = i \<Longrightarrow>
   find (\<lambda>x. key_cell x = k) (replace_or_append i r ws) =
     (if k = i then Some r else find (\<lambda>x. key_cell x = k) ws)"
  by (induction ws) auto

lemma filter_replace_or_append:
  "key_cell r = i \<Longrightarrow>
   filter (\<lambda>x. key_cell x \<noteq> i) (replace_or_append i r ws) = filter (\<lambda>x. key_cell x \<noteq> i) ws"
  by (induction ws) auto

lemma rows_keyed_replace_or_append:
  "key_cell r = i \<Longrightarrow>
   rows_keyed (replace_or_append i r ws) k =
     (if k = i \<and> rows_keyed ws i = 0 then 1 else rows_keyed ws k)"
  by (induction ws) (auto simp: rows_keyed_def)

lemma set_first_uses: "set (first_uses xs) = set xs"
  by (induction xs) auto

lemma distinct_first_uses: "distinct (first_uses xs)"
  by (induction xs) (auto simp: distinct_removeAll)

lemma keys_update_all:
  assumes "\<forall>c \<in> set cs. fst c \<noteq> [] \<and> key_cell (snd c) = fst c"
  shows "map key_cell (update_all ws cs) =
           map key_cell ws @ filter (\<lambda>i. i \<notin> set (map key_cell ws)) (first_uses (map fst cs))"
  using assms
proof (induction cs arbitrary: ws)
  case Nil
  then show ?case by simp
next
  case (Cons c cs)
  obtain i r where c: "c = (i, r)" by (cases c)
  from Cons.prems c have i: "i \<noteq> []" "key_cell r = i" by auto
  let ?ws1 = "update_doentes_sheet ws i r"
  let ?F = "first_uses (map fst cs)"
  have k1: "map key_cell ?ws1 =
      (if i \<in> set (map key_cell ws) then map key_cell ws else map key_cell ws @ [i])"
    using i by (simp add: update_doentes_sheet_eq keys_replace_or_append)
  have ih: "map key_cell (update_all ?ws1 cs) =
      map key_cell ?ws1 @ filter (\<lambda>j. j \<notin> set (map key_cell ?ws1)) ?F"
    using Cons.IH [of ?ws1] Cons.prems by simp
  show ?case
  proof (cases "i \<in> set (map key_cell ws)")
    case True
    have "filter (\<lambda>j. j \<notin> set (map key_cell ws)) (removeAll i ?F)
          = filter (\<lambda>j. j \<notin> set (map key_cell ws)) ?F"
      using True by (simp add: filter_removeAll_dropped)
    then show ?thesis using ih k1 True c by simp
  next
    case False
    have "filter (\<lambda>j. j \<notin> set (map key_cell ws @ [i])) ?F
          = filter (\<lambda>j. j \<notin> set (map key_cell ws)) (removeAll i ?F)"
      by (rule filter_notin_snoc)
    then show ?thesis using ih k1 False c by simp
  qed
qed

lemma find_update_all:
  assumes "\<forall>c \<in> set cs. fst c \<noteq> [] \<and> key_cell (snd c) = fst c"
  shows "find (\<lambda>x. key_cell x = k) (update_all ws cs) =
           (case map_of (rev cs) k of Some v \<Rightarrow> Some v | None \<Rightarrow> find (\<lambda>x. key_cell x = k) ws)"
  using assms
proof (induction cs arbitrary: ws)
  case Nil
  then show ?case by simp
next
  case (Cons c cs)
  obtain i r where c: "c = (i, r)" by (cases c)
  from Cons.prems c have i: "i \<noteq> []" "key_cell r = i" by auto
  let ?ws1 = "update_doentes_sheet ws i r"
  have ih: "find (\<lambda>x. key_cell x = k) (update_all ?ws1 cs) =
      (case map_of (rev cs) k of Some v \<Rightarrow> Some v | None \<Rightarrow> find (\<lambda>x. key_cell x = k) ?ws1)"
    using Cons.IH [of ?ws1] Cons.prems by simp
  have f1: "find (\<lambda>x. key_cell x = k) ?ws1 = (if k = i then Some r else find (\<lambda>x. key_cell x = k) ws)"
    using i by (simp add: update_doentes_sheet_eq find_replace_or_append)
  show ?case
    using ih f1 c by (simp add: map_of_append map_add_def split: option.splits)
qed

lemma count_list_distinct: "distinct xs \<Longrightarrow> x \<in> set xs \<Longrightarrow> count_list xs x = 1"
  by (induction xs) auto

lemma rows_keyed_count: "rows_keyed ws k = count_list (map key_cell ws) k"
  by (induction ws) (auto simp: rows_keyed_def)

lemma key_cell_Cons: "key_cell (c # cs) = c"
  by (simp add: key_cell_def)

lemma key_cell_HEADERS_DOENTES: "key_cell HEADERS_DOENTES = ''N_Processo''"
  by (simp add: HEADERS_DOENTES_def key_cell_def)

lemma update_all_nonempty: "ws \<noteq> [] \<Longrightarrow> \<forall>c \<in> set cs. fst c \<noteq> [] \<Longrightarrow> update_all ws cs \<noteq> []"
proof (induction cs arbitrary: ws)
  case Nil
  then show ?case by simp
next
  case (Cons c cs)
  obtain i r where c: "c = (i, r)" by (cases c)
  have "replace_or_append i r ws \<noteq> []" by (cases ws) auto
  then show ?case using Cons c by (simp add: update_doentes_sheet_eq)
qed

lemma hd_update_all:
  assumes "\<forall>c \<in> set cs. fst c \<noteq> [] \<and> fst c \<noteq> key_cell h"
  shows "hd (update_all (h # ws) cs) = h \<and> update_all (h # ws) cs \<noteq> []"
  using assms
proof (induction cs arbitrary: ws)
  case Nil
  then show ?case by simp
next
  case (Cons c cs)
  obtain i r where c: "c = (i, r)" by (cases c)
  from Cons.prems c have i: "i \<noteq> []" "i \<noteq> key_cell h" by auto
  have "update_doentes_sheet (h # ws) i r = h # replace_or_append i r ws"
    using i by (simp add: update_doentes_sheet_eq)
  then show ?case using Cons c by simp
qed


text \<open>
  C3, as the code has it. Take any run of calls whose identifiers are not empty and not
  the header's title \<^verbatim>\<open>N_Processo\<close>, each row carrying its identifier in its first
  cell, on a table that holds only the header. Afterwards the header is still the first
  row; the key cells of the other rows are the identifiers used, each once, in the order
  of first use; the row of an identifier is the row of the last call for it. One call
  with identifier \<open>i\<close> on any table replaces the first row whose key is \<open>i\<close> where it
  stands, or adds the row at the end when no row has that key, and the rows of the other
  identifiers keep their order.
\<close>

theorem upsert_sequence:
  assumes "\<forall>c \<in> set cs. fst c \<noteq> [] \<and> fst c \<noteq> ''N_Processo'' \<and> key_cell (snd c) = fst c"
    and "i \<noteq> []" and "key_cell r = i"
  shows "hd (update_all [HEADERS_DOENTES] cs) = HEADERS_DOENTES
     \<and> map key_cell (tl (update_all [HEADERS_DOENTES] cs)) = first_uses (map fst cs)
     \<and> distinct (map key_cell (update_all [HEADERS_DOENTES] cs))
     \<and> set (map key_cell (tl (update_all [HEADERS_DOENTES] cs))) = fst ` set cs
     \<and> (\<forall>k \<in> fst ` set cs.
           find (\<lambda>x. key_cell x = k) (update_all [HEADERS_DOENTES] cs) = map_of (rev cs) k
           \<and> rows_keyed (update_all [HEADERS_DOENTES] cs) k = 1)
     \<and> (i \<in> set (map key_cell ws) \<longrightarrow>
           update_doentes_sheet ws i r = ws[index_of (map key_cell ws) i := r])
     \<and> (i \<notin> set (map key_cell ws) \<longrightarrow> update_doentes_sheet ws i r = ws @ [r])
     \<and> filter (\<lambda>x. key_cell x \<noteq> i) (update_doentes_sheet ws i r)
         = filter (\<lambda>x. key_cell x \<noteq> i) ws"
proof -
  let ?ws = "update_all [HEADERS_DOENTES] cs"
  have a1: "\<forall>c \<in> set cs. fst c \<noteq> [] \<and> key_cell (snd c) = fst c"
    using assms(1) by blast
  have a2: "\<forall>c \<in> set cs. fst c \<noteq> [] \<and> fst c \<noteq> key_cell HEADERS_DOENTES"
    using assms(1) by (simp add: key_cell_HEADERS_DOENTES)
  have notin: "''N_Processo'' \<notin> set (map fst cs)"
    using assms(1) by auto
  have h: "hd ?ws = HEADERS_DOENTES" "?ws \<noteq> []"
    using hd_update_all [OF a2, of "[]"] by simp_all
  have "\<forall>j \<in> set (first_uses (map fst cs)). j \<noteq> ''N_Processo''"
    using assms(1) by (auto simp: set_first_uses)
  then have "filter (\<lambda>j. j \<noteq> ''N_Processo'') (first_uses (map fst cs)) = first_uses (map fst cs)"
    by (simp add: filter_id_conv)
  then have k: "map key_cell ?ws = ''N_Processo'' # first_uses (map fst cs)"
    using keys_update_all [OF a1, of "[HEADERS_DOENTES]"]
    by (simp add: key_cell_HEADERS_DOENTES)
  have kt: "map key_cell (tl ?ws) = first_uses (map fst cs)"
    using k by (simp add: map_tl)
  have d: "distinct (map key_cell ?ws)"
    using k notin by (simp add: distinct_first_uses set_first_uses)
  have s: "set (map key_cell (tl ?ws)) = fst ` set cs"
    unfolding kt by (simp add: set_first_uses)
  have f: "find (\<lambda>x. key_cell x = k) ?ws = map_of (rev cs) k
           \<and> rows_keyed ?ws k = 1" if "k \<in> fst ` set cs" for k
  proof -
    have "k \<in> fst ` set (rev cs)" using that by simp
    then obtain v where v: "map_of (rev cs) k = Some v"
      by (metis domD dom_map_of_conv_image_fst)
    have 1: "find (\<lambda>x. key_cell x = k) ?ws = map_of (rev cs) k"
      using find_update_all [OF a1, of k "[HEADERS_DOENTES]"] v by simp
    have "k \<in> set (map key_cell ?ws)" using k that by (simp add: set_first_uses)
    then have "count_list (map key_cell ?ws) k = 1"
      using d by (rule count_list_distinct [rotated])
    then show ?thesis using 1 by (simp add: rows_keyed_count)
  qed
  have p: "i \<in> set (map key_cell ws) \<longrightarrow>
           update_doentes_sheet ws i r = ws[index_of (map key_cell ws) i := r]"
    using update_present [OF assms(2)] by blast
  have ab: "i \<notin> set (map key_cell ws) \<longrightarrow> update_doentes_sheet ws i r = ws @ [r]"
    using update_absent [OF assms(2)] by blast
  have fl: "filter (\<lambda>x. key_cell x \<noteq> i) (update_doentes_sheet ws i r)
         = filter (\<lambda>x. key_cell x \<noteq> i) ws"
    using assms(2,3) by (simp add: update_doentes_sheet_eq filter_replace_or_append)
  show ?thesis
    using h(1) kt d s f p ab fl by blast
qed

text \<open>An instance: two identifiers, the first one saved twice.\<close>

theorem upsert_sequence_witness:
  "list_all (\<lambda>c. fst c \<noteq> [] \<and> fst c \<noteq> ''N_Processo'' \<and> key_cell (snd c) = fst c)
     [(''123456'', [''123456'', ''a'']), (''777'', [''777'', ''b'']), (''123456'', [''123456'', ''c''])]
   \<and> (''777'' :: string) \<noteq> [] \<and> key_cell [''777'', ''d''] = ''777''
   \<and> hd (update_all [HEADERS_DOENTES]
        [(''123456'', [''123456'', ''a'']), (''777'', [''777'', ''b'']),
         (''123456'', [''123456'', ''c''])]) = HEADERS_DOENTES
   \<and> map key_cell (tl (update_all [HEADERS_DOENTES]
        [(''123456'', [''123456'', ''a'']), (''777'', [''777'', ''b'']),
         (''123456'', [''123456'', ''c''])])) = [''123456'', ''777'']
   \<and> find (\<lambda>x. key_cell x = ''123456'') (update_all [HEADERS_DOENTES]
        [(''123456'', [''123456'', ''a'']), (''777'', [''777'', ''b'']),
         (''123456'', [''123456'', ''c''])]) = Some [''123456'', ''c'']
   \<and> update_doentes_sheet [HEADERS_DOENTES, [''123456'', ''c''], [''777'', ''b'']] ''777'' [''777'', ''d'']
       = [HEADERS_DOENTES, [''123456'', ''c''], [''777'', ''d'']]
   \<and> update_doentes_sheet [HEADERS_DOENTES, [''123456'', ''c'']] ''777'' [''777'', ''d'']
       = [HEADERS_DOENTES, [''123456'', ''c''], [''777'', ''d'']]"
proof -
  let ?cs = "[(''123456'', [''123456'', ''a'']), (''777'', [''777'', ''b'']),
              (''123456'', [''123456'', ''c''])]"
  have a: "\<forall>c \<in> set ?cs. fst c \<noteq> [] \<and> fst c \<noteq> ''N_Processo'' \<and> key_cell (snd c) = fst c"
    by (simp add: key_cell_Cons)
  have n: "(''777'' :: string) \<noteq> []" by simp
  have k: "key_cell [''777'', ''d''] = ''777''" by (simp add: key_cell_Cons)
  have K1: "map key_cell [HEADERS_DOENTES, [''123456'', ''c''], [''777'', ''b'']]
            = [''N_Processo'', ''123456'', ''777'']"
    by (simp add: key_cell_HEADERS_DOENTES key_cell_Cons)
  have K2: "map key_cell [HEADERS_DOENTES, [''123456'', ''c'']] = [''N_Processo'', ''123456'']"
    by (simp add: key_cell_HEADERS_DOENTES key_cell_Cons)
  have i1: "index_of [''N_Processo'', ''123456'', ''777''] ''777'' = 2" by simp
  have u1: "update_doentes_sheet [HEADERS_DOENTES, [''123456'', ''c''], [''777'', ''b'']] ''777''
              [''777'', ''d''] = [HEADERS_DOENTES, [''123456'', ''c''], [''777'', ''d'']]"
    using upsert_sequence [OF a n k, of "[HEADERS_DOENTES, [''123456'', ''c''], [''777'', ''b'']]"]
    by (simp only: K1 i1) simp
  have u2: "update_doentes_sheet [HEADERS_DOENTES, [''123456'', ''c'']] ''777'' [''777'', ''d'']
              = [HEADERS_DOENTES, [''123456'', ''c''], [''777'', ''d'']]"
    using upsert_sequence [OF a n k, of "[HEADERS_DOENTES, [''123456'', ''c'']]"]
    by (simp only: K2) simp
  have f: "find (\<lambda>x. key_cell x = ''123456'') (update_all [HEADERS_DOENTES] ?cs)
           = Some [''123456'', ''c'']"
    using upsert_sequence [OF a n k, of "[]"] by simp
  have h: "hd (update_all [HEADERS_DOENTES] ?cs) = HEADERS_DOENTES"
    using upsert_sequence [OF a n k, of "[]"] by blast
  have t: "map key_cell (tl (update_all [HEADERS_DOENTES] ?cs)) = [''123456'', ''777'']"
    using upsert_sequence [OF a n k, of "[]"] by simp
  have l: "list_all (\<lambda>c. fst c \<noteq> [] \<and> fst c \<noteq> ''N_Processo'' \<and> key_cell (snd c) = fst c) ?cs"
    using a by (simp only: list_all_iff)
  show ?thesis
    using l n k h t f u1 u2 by blast
qed

text \<open>
  Without the two conditions the claim fails. A call with the identifier
  \<^verbatim>\<open>N_Processo\<close> on the table that holds only its header does not add a row: it
  replaces the header, and the table has no patient row afterwards. Two calls for the
  identifier \<^verbatim>\<open>A\<close> whose rows do not start with \<^verbatim>\<open>A\<close> leave two rows and none
  of key \<^verbatim>\<open>A\<close>.
\<close>

theorem upsert_sequence_counterexample:
  "update_all [HEADERS_DOENTES] [(''N_Processo'', [''N_Processo'', ''x''])] = [[''N_Processo'', ''x'']]
   \<and> rows_keyed (tl (update_all [HEADERS_DOENTES] [(''N_Processo'', [''N_Processo'', ''x''])]))
        ''N_Processo'' = 0
   \<and> ''N_Processo'' \<notin> set (map key_cell (tl [HEADERS_DOENTES]))
   \<and> update_doentes_sheet [HEADERS_DOENTES] ''N_Processo'' [''N_Processo'', ''x'']
        \<noteq> [HEADERS_DOENTES] @ [[''N_Processo'', ''x'']]
   \<and> update_all [HEADERS_DOENTES] [(''A'', [''B'', ''1'']), (''A'', [''C'', ''2''])]
        = [HEADERS_DOENTES, [''B'', ''1''], [''C'', ''2'']]
   \<and> rows_keyed (update_all [HEADERS_DOENTES] [(''A'', [''B'', ''1'']), (''A'', [''C'', ''2''])]) ''A'' = 0"
proof -
  have k: "key_cell HEADERS_DOENTES = ''N_Processo''" by (rule key_cell_HEADERS_DOENTES)
  have n: "(''N_Processo'' :: string) \<noteq> []" "(''A'' :: string) \<noteq> []" by simp_all
  have 1: "update_doentes_sheet [HEADERS_DOENTES] ''N_Processo'' [''N_Processo'', ''x'']
           = [[''N_Processo'', ''x'']]"
    by (simp add: update_doentes_sheet_eq k)
  have 2: "update_doentes_sheet [HEADERS_DOENTES] ''A'' [''B'', ''1''] = [HEADERS_DOENTES, [''B'', ''1'']]"
    by (simp add: update_doentes_sheet_eq k)
  have 3: "update_doentes_sheet [HEADERS_DOENTES, [''B'', ''1'']] ''A'' [''C'', ''2'']
           = [HEADERS_DOENTES, [''B'', ''1''], [''C'', ''2'']]"
    by (simp add: update_doentes_sheet_eq k key_cell_Cons)
  show ?thesis
    by (simp add: 1 2 3 rows_keyed_def k key_cell_Cons)
qed

section \<open>The header row is part of the key column\<close>

text \<open>
  C9. The key column that \<open>update_doentes_sheet\<close> searches starts with the header's
  cell. With the identifier \<^verbatim>\<open>N_Processo\<close> the search succeeds at position 0, the
  header row is deleted and the patient row is put in its place; no row is added.
\<close>

theorem header_row_replaced:
  "''N_Processo'' \<in> set (col_values (HEADERS_DOENTES # rest))
   \<and> index_of (col_values (HEADERS_DOENTES # rest)) ''N_Processo'' = 0
   \<and> update_doentes_sheet (HEADERS_DOENTES # rest) ''N_Processo'' row = row # rest
   \<and> update_doentes_sheet (HEADERS_DOENTES # rest) ''N_Processo'' row
        \<noteq> (HEADERS_DOENTES # rest) @ [row]
   \<and> update_doentes_sheet [HEADERS_DOENTES] ''N_Processo'' row = [row]"
proof -
  have n: "(''N_Processo'' :: string) \<noteq> []" by simp
  have k: "key_cell HEADERS_DOENTES = ''N_Processo''" by (rule key_cell_HEADERS_DOENTES)
  have m: "''N_Processo'' \<in> set (map key_cell (HEADERS_DOENTES # rest))"
    by (simp add: k)
  have 1: "''N_Processo'' \<in> set (col_values (HEADERS_DOENTES # rest))"
    using col_values_mem [OF n] m by blast
  have 2: "index_of (col_values (HEADERS_DOENTES # rest)) ''N_Processo'' = 0"
    using col_values_index [OF n m] by (simp add: k)
  have 3: "update_doentes_sheet (HEADERS_DOENTES # rest) ''N_Processo'' row = row # rest" for rest
    by (simp add: update_doentes_sheet_eq k)
  have 4: "row # rest \<noteq> (HEADERS_DOENTES # rest) @ [row]"
    by (metis length_Cons length_append_singleton n_not_Suc_n)
  show ?thesis using 1 2 3 4 by simp
qed

section \<open>Duplicate rows\<close>

text \<open>
  C10. For a call with a non-empty identifier \<open>i\<close> and a row of that key: the number
  of rows of any key \<open>k\<close> is unchanged, but for \<open>i\<close> when the table had no row of it
  (then it is one). So when the table holds two or more rows of key \<open>i\<close>, the call
  replaces the first of them (no row before it has the key), the rows after it are left
  as they are, and there are as many rows of key \<open>i\<close> as before; and the keys of the
  table are distinct after the call exactly when they were before.
\<close>

theorem duplicates_stay:
  assumes "i \<noteq> []" and "key_cell r = i"
  shows "rows_keyed (update_doentes_sheet ws i r) k
           = (if k = i \<and> rows_keyed ws i = 0 then 1 else rows_keyed ws k)
     \<and> (2 \<le> rows_keyed ws i \<longrightarrow>
           update_doentes_sheet ws i r = ws[index_of (map key_cell ws) i := r]
           \<and> index_of (map key_cell ws) i < length ws
           \<and> (\<forall>j < index_of (map key_cell ws) i. key_cell (ws ! j) \<noteq> i)
           \<and> drop (Suc (index_of (map key_cell ws) i)) (update_doentes_sheet ws i r)
               = drop (Suc (index_of (map key_cell ws) i)) ws
           \<and> rows_keyed (update_doentes_sheet ws i r) i = rows_keyed ws i)
     \<and> distinct (map key_cell (update_doentes_sheet ws i r)) = distinct (map key_cell ws)"
proof -
  let ?K = "map key_cell ws"
  let ?p = "index_of ?K i"
  have c: "rows_keyed (update_doentes_sheet ws i r) k
           = (if k = i \<and> rows_keyed ws i = 0 then 1 else rows_keyed ws k)" for k
    using assms by (simp add: update_doentes_sheet_eq rows_keyed_replace_or_append)
  have two: "update_doentes_sheet ws i r = ws[?p := r] \<and> ?p < length ws
      \<and> (\<forall>j < ?p. key_cell (ws ! j) \<noteq> i)
      \<and> drop (Suc ?p) (update_doentes_sheet ws i r) = drop (Suc ?p) ws
      \<and> rows_keyed (update_doentes_sheet ws i r) i = rows_keyed ws i"
    if "2 \<le> rows_keyed ws i"
  proof -
    have "count_list ?K i \<noteq> 0" using that by (simp add: rows_keyed_count)
    then have m: "i \<in> set ?K" by (metis count_notin)
    have u: "update_doentes_sheet ws i r = ws[?p := r]"
      using update_present [OF assms(1) m] .
    have l: "?p < length ws" using index_of_less [OF m] by simp
    have f: "\<forall>j < ?p. key_cell (ws ! j) \<noteq> i"
    proof (intro allI impI)
      fix j assume j: "j < ?p"
      then have "?K ! j \<noteq> i" by (rule index_of_first)
      moreover have "j < length ws" using j l by simp
      ultimately show "key_cell (ws ! j) \<noteq> i" by simp
    qed
    have d: "drop (Suc ?p) (update_doentes_sheet ws i r) = drop (Suc ?p) ws"
      unfolding u by simp
    show ?thesis using u l f d c [of i] that by simp
  qed
  have dist: "distinct (map key_cell (update_doentes_sheet ws i r)) = distinct ?K"
    using assms by (simp add: update_doentes_sheet_eq keys_replace_or_append)
  show ?thesis using c two dist by blast
qed

text \<open>An instance: the second row of key \<^verbatim>\<open>A\<close> stays.\<close>

theorem duplicates_stay_witness:
  "(''A'' :: string) \<noteq> [] \<and> key_cell [''A'', ''new''] = ''A''
   \<and> 2 \<le> rows_keyed [HEADERS_DOENTES, [''A'', ''1''], [''B'', ''2''], [''A'', ''3'']] ''A''
   \<and> update_doentes_sheet [HEADERS_DOENTES, [''A'', ''1''], [''B'', ''2''], [''A'', ''3'']]
        ''A'' [''A'', ''new'']
       = [HEADERS_DOENTES, [''A'', ''new''], [''B'', ''2''], [''A'', ''3'']]
   \<and> rows_keyed (update_doentes_sheet [HEADERS_DOENTES, [''A'', ''1''], [''B'', ''2''], [''A'', ''3'']]
        ''A'' [''A'', ''new'']) ''A'' = 2
   \<and> \<not> distinct (map key_cell (update_doentes_sheet
        [HEADERS_DOENTES, [''A'', ''1''], [''B'', ''2''], [''A'', ''3'']] ''A'' [''A'', ''new'']))"
proof -
  let ?ws = "[HEADERS_DOENTES, [''A'', ''1''], [''B'', ''2''], [''A'', ''3'']]"
  have n: "(''A'' :: string) \<noteq> []" by simp
  have k: "key_cell [''A'', ''new''] = ''A''" by (simp add: key_cell_Cons)
  have K: "map key_cell ?ws = [''N_Processo'', ''A'', ''B'', ''A'']"
    by (simp add: key_cell_HEADERS_DOENTES key_cell_Cons)
  have two: "2 \<le> rows_keyed ?ws ''A''"
    by (simp only: rows_keyed_count K) simp
  have i: "index_of (map key_cell ?ws) ''A'' = 1"
    by (simp only: K) simp
  have u: "update_doentes_sheet ?ws ''A'' [''A'', ''new'']
             = [HEADERS_DOENTES, [''A'', ''new''], [''B'', ''2''], [''A'', ''3'']]"
    using duplicates_stay [OF n k, of ?ws "''A''"] two i by simp
  have K': "map key_cell [HEADERS_DOENTES, [''A'', ''new''], [''B'', ''2''], [''A'', ''3'']]
             = [''N_Processo'', ''A'', ''B'', ''A'']"
    by (simp add: key_cell_HEADERS_DOENTES key_cell_Cons)
  have r2: "rows_keyed [HEADERS_DOENTES, [''A'', ''new''], [''B'', ''2''], [''A'', ''3'']] ''A'' = 2"
    by (simp only: rows_keyed_count K') simp
  have nd: "\<not> distinct (map key_cell [HEADERS_DOENTES, [''A'', ''new''], [''B'', ''2''], [''A'', ''3'']])"
    by (simp only: K') simp
  show ?thesis
    unfolding u using two n k r2 nd by blast
qed

section \<open>Providing a worksheet\<close>

lemma sheets_named_0: "(sheets_named ss name = 0) = (map_of ss name = None)"
  by (induction ss) (auto simp: sheets_named_def)

text \<open>
  C7. A second call of \<open>get_or_create_sheet\<close> with the same name, whatever header it
  is given, returns what the first returned and leaves the spreadsheet as the first call
  left it: no second sheet of that name, no change to a row. When no sheet of the name
  exists, the first call adds one sheet whose only row is the header given; when one
  exists, the call changes nothing and returns it. The other sheets are not touched.
\<close>

theorem get_or_create_sheet_idempotent:
  "get_or_create_sheet (fst (get_or_create_sheet ss name h)) name h'
     = get_or_create_sheet ss name h
   \<and> sheets_named (fst (get_or_create_sheet ss name h)) name
       = (if sheets_named ss name = 0 then 1 else sheets_named ss name)
   \<and> (map_of ss name = None \<longrightarrow>
        get_or_create_sheet ss name h = (ss @ [(name, [h])], [h]))
   \<and> (map_of ss name = Some ws \<longrightarrow> get_or_create_sheet ss name h = (ss, ws))
   \<and> (other \<noteq> name \<longrightarrow> map_of (fst (get_or_create_sheet ss name h)) other = map_of ss other)"
proof (cases "map_of ss name")
  case None
  have z: "sheets_named ss name = 0" using None by (simp add: sheets_named_0)
  have m: "map_of (ss @ [(name, [h])]) name = Some [h]"
    using None by (simp add: map_add_def)
  have c: "sheets_named (ss @ [(name, [h])]) name = 1"
    using z by (simp add: sheets_named_def)
  show ?thesis
    using None z m c
    by (auto simp: get_or_create_sheet_def append_row_def Let_def map_add_def
        split: option.splits)
next
  case (Some w)
  have "sheets_named ss name \<noteq> 0" using Some by (simp add: sheets_named_0)
  then show ?thesis
    using Some by (simp add: get_or_create_sheet_def)
qed

text \<open>An instance: a spreadsheet with the patient sheet only.\<close>

theorem get_or_create_sheet_idempotent_witness:
  "map_of [(''Doentes'', [HEADERS_DOENTES, [''1'', ''x'']])] ''Visitas'' = None
   \<and> map_of [(''Doentes'', [HEADERS_DOENTES, [''1'', ''x'']])] ''Doentes''
       = Some [HEADERS_DOENTES, [''1'', ''x'']]
   \<and> get_or_create_sheet [(''Doentes'', [HEADERS_DOENTES, [''1'', ''x'']])] ''Visitas'' HEADERS_VISITAS
       = ([(''Doentes'', [HEADERS_DOENTES, [''1'', ''x'']]), (''Visitas'', [HEADERS_VISITAS])],
          [HEADERS_VISITAS])
   \<and> get_or_create_sheet [(''Doentes'', [HEADERS_DOENTES, [''1'', ''x'']])] ''Doentes'' HEADERS_VISITAS
       = ([(''Doentes'', [HEADERS_DOENTES, [''1'', ''x'']])], [HEADERS_DOENTES, [''1'', ''x'']])
   \<and> get_or_create_sheet
        (fst (get_or_create_sheet [(''Doentes'', [HEADERS_DOENTES, [''1'', ''x'']])] ''Visitas''
                HEADERS_VISITAS)) ''Visitas'' HEADERS_EVENTOS
       = ([(''Doentes'', [HEADERS_DOENTES, [''1'', ''x'']]), (''Visitas'', [HEADERS_VISITAS])],
          [HEADERS_VISITAS])
   \<and> map_of (fst (get_or_create_sheet [(''Doentes'', [HEADERS_DOENTES, [''1'', ''x'']])] ''Visitas''
                HEADERS_VISITAS)) ''Doentes'' = Some [HEADERS_DOENTES, [''1'', ''x'']]"
proof -
  let ?ss = "[(''Doentes'', [HEADERS_DOENTES, [''1'', ''x'']])]"
  have n: "map_of ?ss ''Visitas'' = None" by simp
  have s: "map_of ?ss ''Doentes'' = Some [HEADERS_DOENTES, [''1'', ''x'']]" by simp
  have d: "(''Doentes'' :: string) \<noteq> ''Visitas''" by simp
  have 1: "get_or_create_sheet ?ss ''Visitas'' HEADERS_VISITAS
           = (?ss @ [(''Visitas'', [HEADERS_VISITAS])], [HEADERS_VISITAS])"
    using get_or_create_sheet_idempotent [of ?ss "''Visitas''" HEADERS_VISITAS] n by blast
  have 2: "get_or_create_sheet ?ss ''Doentes'' HEADERS_VISITAS = (?ss, [HEADERS_DOENTES, [''1'', ''x'']])"
    using get_or_create_sheet_idempotent
      [of ?ss "''Doentes''" HEADERS_VISITAS _ "[HEADERS_DOENTES, [''1'', ''x'']]"] s by blast
  have 3: "get_or_create_sheet (fst (get_or_create_sheet ?ss ''Visitas'' HEADERS_VISITAS))
             ''Visitas'' HEADERS_EVENTOS
           = get_or_create_sheet ?ss ''Visitas'' HEADERS_VISITAS"
    using get_or_create_sheet_idempotent [of ?ss "''Visitas''" HEADERS_VISITAS HEADERS_EVENTOS]
    by blast
  have 4: "map_of (fst (get_or_create_sheet ?ss ''Visitas'' HEADERS_VISITAS)) ''Doentes''
           = map_of ?ss ''Doentes''"
    using get_or_create_sheet_idempotent
      [of ?ss "''Visitas''" HEADERS_VISITAS _ _ "''Doentes''"] d by blast
  show ?thesis
    using n s 1 2 3 4 by simp
qed

section \<open>Writing into a record\<close>

lemma field_update:
  "field (JObj (AList.update k v kvs)) k' = (if k' = k then v else field (JObj kvs) k')"
  by (simp add: field_def update_conv')

lemma subrec_update:
  "subrec (JObj (AList.update k v kvs)) k' = (if k' = k then v else subrec (JObj kvs) k')"
  by (simp add: subrec_def update_conv')

lemma subscript_update:
  "subscript (JObj (AList.update k v kvs)) k' = (if k' = k then Inr v else subscript (JObj kvs) k')"
  by (simp add: update_conv')

lemma doentes_ok_obj:
  assumes "doentes_ok e"
  obtains ekvs dkvs where "e = JObj ekvs" "map_of ekvs ''doente'' = Some (JObj dkvs)"
    "doente_ok (JObj dkvs)" "field e ''doente'' = JObj dkvs" "subrec e ''doente'' = JObj dkvs"
proof -
  obtain ekvs where e: "e = JObj ekvs"
    using assms by (cases e) (simp_all add: doentes_ok_def)
  obtain d where m: "map_of ekvs ''doente'' = Some d" and ok: "doente_ok d"
    using assms by (auto simp: doentes_ok_def e split: option.splits)
  obtain dkvs where d: "d = JObj dkvs"
    using ok by (cases d) (simp_all add: doente_ok_def is_obj_def)
  show ?thesis
    using that [of ekvs dkvs] e m ok d by (simp add: field_def subrec_def)
qed

lemma set_at_doente:
  assumes "e = JObj ekvs" "subrec e ''doente'' = d"
  shows "set_at (''doente'' # p) v e = JObj (AList.update ''doente'' (set_at p v d) ekvs)"
  using assms by simp

lemma doentes_ok_update:
  "doentes_ok (JObj (AList.update ''doente'' d ekvs)) = doente_ok d"
  by (simp add: doentes_ok_def update_conv')

lemma field_doente_update:
  "field (JObj (AList.update ''doente'' d ekvs)) ''doente'' = d"
  by (simp add: field_update)

lemma field_update_other:
  "k' \<noteq> k \<Longrightarrow> field (JObj (AList.update k v kvs)) k' = field (JObj kvs) k'"
  by (simp add: field_update)

lemma subrec_update_other:
  "k' \<noteq> k \<Longrightarrow> subrec (JObj (AList.update k v kvs)) k' = subrec (JObj kvs) k'"
  by (simp add: subrec_update)

lemma med_entry_update_other:
  "k \<noteq> ''medicacao'' \<Longrightarrow> med_entry (JObj (AList.update k v kvs)) c = med_entry (JObj kvs) c"
  by (simp add: med_entry_def subrec_update)

lemma med_cells_update_other:
  "k \<noteq> ''medicacao'' \<Longrightarrow> med_cells R (JObj (AList.update k v kvs)) = med_cells R (JObj kvs)"
  by (rule ext) (simp add: med_cells_def med_entry_update_other)

lemma doente_ok_update_leaf:
  assumes "k \<notin> set (''medicacao'' # DOENTE_SUBRECORDS)"
  shows "doente_ok (JObj (AList.update k v kvs)) = doente_ok (JObj kvs)"
proof -
  from assms have ne: "''medicacao'' \<noteq> k" "''frcv'' \<noteq> k" "''comorbilidades'' \<noteq> k" "''ic'' \<noteq> k"
    "''drc'' \<noteq> k" "''pocus'' \<noteq> k"
    by (auto simp: DOENTE_SUBRECORDS_def)
  show ?thesis
    using ne by (simp add: doente_ok_def subrec_update_other is_obj_def DOENTE_SUBRECORDS_def)
qed

section \<open>Age\<close>

lemma doentes_cells_birth_date:
  "take 1 (doentes_cells R today n (JObj (AList.update ''data_nascimento'' v kvs)))
     = take 1 (doentes_cells R today n (JObj kvs))
   \<and> drop 3 (doentes_cells R today n (JObj (AList.update ''data_nascimento'' v kvs)))
     = drop 3 (doentes_cells R today n (JObj kvs))
   \<and> doentes_cells R today n (JObj (AList.update ''data_nascimento'' v kvs)) ! 2
     = sv R (age_value (calculate_age today (py_or v (JStr []))))"
  by (simp add: doentes_cells_def get_cells_def field_update subrec_update
      med_cells_update_other age_cell_def)

lemma doentes_cells_age: "doentes_cells R today n d ! 2 = age_cell R today d"
  by (simp add: doentes_cells_def get_cells_def)

lemma age_cell_cases:
  "age_cell R today d =
     (case calculate_age today (py_or (field d ''data_nascimento'') (JStr [])) of
        None \<Rightarrow> [] | Some a \<Rightarrow> str_int a)"
  by (simp add: age_cell_def age_value_def split: option.splits)

lemma calculate_age_examples:
  "calculate_age \<lparr>year = 2024, month = 3, day = 9\<rparr> (JStr ''1960-03-10'') = Some 63"
  "calculate_age \<lparr>year = 2024, month = 3, day = 10\<rparr> (JStr ''1960-03-10'') = Some 64"
  "calculate_age \<lparr>year = 2024, month = 3, day = 11\<rparr> (JStr ''1960-03-10'') = Some 64"
  "calculate_age \<lparr>year = 2024, month = 2, day = 28\<rparr> (JStr ''1960-03-10'') = Some 63"
  by code_simp+

lemma strptime_failures:
  "strptime_ymd [] = None"
  "strptime_ymd ''10/03/1960'' = None"
  "strptime_ymd ''1960-02-30'' = None"
  "strptime_ymd ''1960-03-10T00:00'' = None"
  "strptime_ymd ''1960'' = None"
  by code_simp+

text \<open>
  C5. The age is the difference of the years, less one exactly when today's month and
  day come before those of the birth date: 63 on 2024-03-09 and 64 on 2024-03-10 for a
  birth on 1960-03-10. A value that is not a string, the empty string that stands for a
  missing or null birth date, and a string that \<^verbatim>\<open>strptime\<close> rejects give no age,
  and the cell of no age is the empty string. The builder returns a row whatever the
  birth date is: replacing it by any value \<open>v\<close> changes the birth-date cell and the age
  cell and no other.
\<close>

theorem age_fails_soft:
  "calculate_age today (JStr s) =
     (case strptime_ymd s of
        None \<Rightarrow> None
      | Some dob \<Rightarrow>
          Some (int (year today) - int (year dob)
                - (if month today < month dob \<or> (month today = month dob \<and> day today < day dob)
                   then 1 else 0)))
   \<and> calculate_age \<lparr>year = 2024, month = 3, day = 9\<rparr> (JStr ''1960-03-10'') = Some 63
   \<and> calculate_age \<lparr>year = 2024, month = 3, day = 10\<rparr> (JStr ''1960-03-10'') = Some 64
   \<and> calculate_age today JNull = None \<and> calculate_age today (JBool b) = None
   \<and> calculate_age today (JInt i) = None \<and> calculate_age today (JFloat w) = None
   \<and> calculate_age today (JArr xs) = None \<and> calculate_age today (JObj kvs) = None
   \<and> calculate_age today (JStr []) = None
   \<and> calculate_age today (JStr ''10/03/1960'') = None
   \<and> calculate_age today (JStr ''1960-02-30'') = None
   \<and> age_cell R today d =
       (case calculate_age today (py_or (field d ''data_nascimento'') (JStr [])) of
          None \<Rightarrow> [] | Some a \<Rightarrow> str_int a)
   \<and> (doentes_ok e \<longrightarrow>
        (\<exists>row row'. build_doentes_row R today n e = Inr row
           \<and> row ! 2 = age_cell R today (field e ''doente'')
           \<and> build_doentes_row R today n (set_at [''doente'', ''data_nascimento''] v e) = Inr row'
           \<and> length row' = length row
           \<and> take 1 row' = take 1 row \<and> drop 3 row' = drop 3 row
           \<and> row' ! 2 = sv R (age_value (calculate_age today (py_or v (JStr []))))))"
proof -
  have formula: "calculate_age today (JStr s) =
     (case strptime_ymd s of
        None \<Rightarrow> None
      | Some dob \<Rightarrow>
          Some (int (year today) - int (year dob)
                - (if month today < month dob \<or> (month today = month dob \<and> day today < day dob)
                   then 1 else 0)))"
    by (simp add: calculate_age_def)
  have other: "calculate_age today JNull = None" "calculate_age today (JBool b) = None"
    "calculate_age today (JInt i) = None" "calculate_age today (JFloat w) = None"
    "calculate_age today (JArr xs) = None" "calculate_age today (JObj kvs) = None"
    by (simp_all add: calculate_age_def)
  have bad: "calculate_age today (JStr []) = None"
    "calculate_age today (JStr ''10/03/1960'') = None"
    "calculate_age today (JStr ''1960-02-30'') = None"
    by (simp_all add: calculate_age_def strptime_failures)
  have row: "\<exists>row row'. build_doentes_row R today n e = Inr row
           \<and> row ! 2 = age_cell R today (field e ''doente'')
           \<and> build_doentes_row R today n (set_at [''doente'', ''data_nascimento''] v e) = Inr row'
           \<and> length row' = length row
           \<and> take 1 row' = take 1 row \<and> drop 3 row' = drop 3 row
           \<and> row' ! 2 = sv R (age_value (calculate_age today (py_or v (JStr []))))"
    if ok: "doentes_ok e"
  proof -
    from ok obtain ekvs dkvs where e: "e = JObj ekvs"
      and dok: "doente_ok (JObj dkvs)" and f: "field e ''doente'' = JObj dkvs"
      and sr: "subrec e ''doente'' = JObj dkvs"
      by (rule doentes_ok_obj)
    let ?d' = "JObj (AList.update ''data_nascimento'' v dkvs)"
    let ?e' = "JObj (AList.update ''doente'' ?d' ekvs)"
    have e': "set_at [''doente'', ''data_nascimento''] v e = ?e'"
      using e sr by simp
    have dok': "doente_ok ?d'"
      using dok by (simp add: doente_ok_update_leaf DOENTE_SUBRECORDS_def)
    have ok': "doentes_ok ?e'" using dok' by (simp add: doentes_ok_update)
    have r: "build_doentes_row R today n e = Inr (doentes_cells R today n (JObj dkvs))"
      using build_doentes_row_ok [OF ok] f by simp
    have r': "build_doentes_row R today n ?e' = Inr (doentes_cells R today n ?d')"
      using build_doentes_row_ok [OF ok'] by (simp add: field_doente_update)
    show ?thesis
      unfolding e' r r'
      using doentes_cells_birth_date [of R today n v dkvs]
      by (simp add: f doentes_cells_age length_doentes_cells)
  qed
  show ?thesis
    using formula calculate_age_examples(1,2) other bad age_cell_cases row by blast
qed

text \<open>An instance: a birth date in another format.\<close>

theorem age_fails_soft_witness:
  "doentes_ok (JObj [(''doente'', JObj [(''data_nascimento'', JStr ''1960-03-10''),
                                        (''sexo'', JStr ''F'')])])
   \<and> (\<exists>row row'.
        build_doentes_row (\<lambda>v. []) \<lparr>year = 2024, month = 3, day = 9\<rparr> ''123456''
          (JObj [(''doente'', JObj [(''data_nascimento'', JStr ''1960-03-10''),
                                    (''sexo'', JStr ''F'')])]) = Inr row
        \<and> row ! 2 = ''63''
        \<and> build_doentes_row (\<lambda>v. []) \<lparr>year = 2024, month = 3, day = 9\<rparr> ''123456''
            (set_at [''doente'', ''data_nascimento''] (JStr ''10/03/1960'')
              (JObj [(''doente'', JObj [(''data_nascimento'', JStr ''1960-03-10''),
                                        (''sexo'', JStr ''F'')])])) = Inr row'
        \<and> row' ! 2 = [] \<and> length row' = length row
        \<and> take 1 row' = take 1 row \<and> drop 3 row' = drop 3 row)"
proof -
  let ?e = "JObj [(''doente'', JObj [(''data_nascimento'', JStr ''1960-03-10''),
                                     (''sexo'', JStr ''F'')])]"
  let ?t = "\<lparr>year = 2024, month = 3, day = 9\<rparr>"
  let ?R = "\<lambda>v::json. []::string"
  have ok: "doentes_ok ?e"
    by (simp add: doentes_ok_def doente_ok_def is_obj_def subrec_def field_def med_entry_ok_def
        DOENTE_SUBRECORDS_def MED_KEYS_def)
  have s63: "str_int 63 = ''63''" by code_simp
  have age: "age_cell ?R ?t (field ?e ''doente'') = ''63''"
    using calculate_age_examples(1)
    by (simp add: age_cell_def field_def py_or_def age_value_def s63)
  have a0: "calculate_age ?t (JStr ''10/03/1960'') = None"
    using age_fails_soft [of ?t] by blast
  have a2: "sv ?R (age_value (calculate_age ?t (py_or (JStr ''10/03/1960'') (JStr [])))) = []"
    using a0 by (simp add: py_or_def age_value_def)
  from age_fails_soft
    [of ?t "[]" False 0 0 "[]" "[]" ?R JNull ?e "''123456''" "JStr ''10/03/1960''"] ok
  show ?thesis
    unfolding age a2 by blast
qed

section \<open>A reply that is not JSON\<close>

lemma clean_reply_examples:
  "clean_reply ''not json'' = ''not json''"
  "clean_reply (''```json'' @ [CHR 0x0A] @ ''not json'' @ [CHR 0x0A] @ ''```'') = ''not json''"
  "clean_reply ('' ```'' @ [CHR 0x0A] @ ''{}'' @ [CHR 0x0A] @ ''``` '') = ''{}''"
  "clean_reply ''null'' = ''null''"
  "clean_reply (''```json'' @ [CHR 0x0A] @ ''[]'' @ [CHR 0x0A] @ ''```'') = ''[]''"
  by code_simp+

text \<open>A text of one repeated character that is neither a space nor a backquote is left as it is.\<close>

lemma clean_reply_replicate:
  assumes "\<not> is_space c" and "c \<noteq> CHR ''`''" and "4 \<le> n"
  shows "clean_reply (replicate n c) = replicate n c"
proof -
  have "\<exists>m. n = Suc (Suc (Suc (Suc m)))"
    using assms(3) by presburger
  then obtain m where n: "n = Suc (Suc (Suc (Suc m)))" ..
  have h: "hd (replicate n c) = c"
    by (simp add: n)
  have l: "lstrip (replicate n c) = replicate n c"
    using assms(1) h by (simp only: lstrip_def dropWhile_eq_self_iff) simp
  have "dropWhile is_space (replicate n c) = replicate n c"
    using l by (simp only: lstrip_def)
  then have r: "rstrip (replicate n c) = replicate n c"
    by (simp only: rstrip_def rev_replicate)
  have s: "strip (replicate n c) = replicate n c"
    by (simp add: strip_def l r)
  have a: "strip_fence_start (replicate n c) = replicate n c"
    using assms(2) by (simp add: strip_fence_start_def starts_with_def n)
  have k: "n - (n - 3) = 3" "n - (n - 4) = 4"
    using assms(3) by simp_all
  have r3: "replicate 3 c = [c, c, c]" and r4: "replicate 4 c = [c, c, c, c]"
    by (simp_all add: numeral_3_eq_3 numeral_Bit0)
  have e1: "\<not> ends_with (replicate n c) ''```''"
    using assms(2) by (simp add: ends_with_def k r3)
  have e2: "\<not> ends_with (replicate n c) (''```'' @ [CHR 0x0A])"
    using assms(2) by (simp add: ends_with_def k r4)
  have b: "strip_fence_end (replicate n c) = replicate n c"
    using e1 e2 by (simp add: strip_fence_end_def)
  show ?thesis
    by (simp add: clean_reply_def s a b)
qed

text \<open>
  C6. \<open>extract_with_gemini\<close> fails with \<open>MalformedExtractionOutput\<close> exactly when
  \<^verbatim>\<open>json.loads\<close> raises \<^verbatim>\<open>JSONDecodeError\<close> on the reply as cleaned of its code
  fence; this is not \<open>ExtractionServiceError\<close>, and the extraction step leaves the
  session as it was: a session that was idle is idle afterwards. The reply
  \<^verbatim>\<open>not json\<close> is cleaned to itself, with or without a fence around it. When
  \<^verbatim>\<open>json.loads\<close> raises another exception, the failure is the general one,
  \<open>ExtractionServiceError\<close>, as when the call itself fails, and the session is as it
  was. A reply that \<^verbatim>\<open>json.loads\<close> decodes is stored as the pending record, whatever
  value it decodes to: nothing looks at its structure.
\<close>

theorem malformed_reply_stores_nothing:
  "(extract_with_gemini loads (Some raw) = Inl MalformedExtractionOutput)
     = (loads (clean_reply raw) = Inl JSONDecodeError)
   \<and> (loads (clean_reply raw) = Inl JSONDecodeError \<longrightarrow>
        process_extraction loads st n (Some raw) = (st, ErrorNotJson)
        \<and> pending_state (fst (process_extraction loads st n (Some raw))) = pending_state st)
   \<and> (loads (clean_reply raw) = Inl RecursionError \<or> loads (clean_reply raw) = Inl ValueError \<longrightarrow>
        extract_with_gemini loads (Some raw) = Inl ExtractionServiceError
        \<and> process_extraction loads st n (Some raw) = (st, ErrorExtraction)
        \<and> pending_state (fst (process_extraction loads st n (Some raw))) = pending_state st)
   \<and> MalformedExtractionOutput \<noteq> ExtractionServiceError
   \<and> extract_with_gemini loads None = Inl ExtractionServiceError
   \<and> process_extraction loads st n None = (st, ErrorExtraction)
   \<and> clean_reply ''not json'' = ''not json''
   \<and> clean_reply (''```json'' @ [CHR 0x0A] @ ''not json'' @ [CHR 0x0A] @ ''```'') = ''not json''
   \<and> (loads ''not json'' = Inl JSONDecodeError \<longrightarrow>
        extract_with_gemini loads (Some ''not json'') = Inl MalformedExtractionOutput
        \<and> process_extraction loads st n (Some ''not json'') = (st, ErrorNotJson)
        \<and> (pending_state st = Idle \<longrightarrow>
             pending_state (fst (process_extraction loads st n (Some ''not json''))) = Idle))
   \<and> (loads (clean_reply raw) = Inr v \<longrightarrow>
        extract_with_gemini loads (Some raw) = Inr v
        \<and> process_extraction loads st n (Some raw)
            = (st\<lparr>ss_extracted := Some v, ss_n_processo := Some n, ss_ready_to_save := True\<rparr>,
               Success)
        \<and> pending_state (fst (process_extraction loads st n (Some raw))) = PendingReview)"
proof -
  have iff: "(extract_with_gemini loads (Some raw) = Inl MalformedExtractionOutput)
     = (loads (clean_reply raw) = Inl JSONDecodeError)"
    by (simp add: extract_with_gemini_def split: sum.splits loads_error.splits)
  have a: "process_extraction loads st n (Some t) = (st, ErrorNotJson)
      \<and> pending_state (fst (process_extraction loads st n (Some t))) = pending_state st"
    if "loads (clean_reply t) = Inl JSONDecodeError" for t
    using that by (simp add: extract_with_gemini_def process_extraction_def)
  have a': "extract_with_gemini loads (Some t) = Inl MalformedExtractionOutput"
    if "loads (clean_reply t) = Inl JSONDecodeError" for t
    using that by (simp add: extract_with_gemini_def)
  have o: "extract_with_gemini loads (Some raw) = Inl ExtractionServiceError
        \<and> process_extraction loads st n (Some raw) = (st, ErrorExtraction)
        \<and> pending_state (fst (process_extraction loads st n (Some raw))) = pending_state st"
    if "loads (clean_reply raw) = Inl RecursionError \<or> loads (clean_reply raw) = Inl ValueError"
    using that by (auto simp add: extract_with_gemini_def process_extraction_def)
  have b: "extract_with_gemini loads None = Inl ExtractionServiceError"
    "process_extraction loads st n None = (st, ErrorExtraction)"
    by (simp_all add: extract_with_gemini_def process_extraction_def)
  have c: "extract_with_gemini loads (Some raw) = Inr v
        \<and> process_extraction loads st n (Some raw)
            = (st\<lparr>ss_extracted := Some v, ss_n_processo := Some n, ss_ready_to_save := True\<rparr>,
               Success)
        \<and> pending_state (fst (process_extraction loads st n (Some raw))) = PendingReview"
    if "loads (clean_reply raw) = Inr v"
    using that by (simp add: extract_with_gemini_def process_extraction_def pending_state_def)
  have d: "extract_with_gemini loads (Some ''not json'') = Inl MalformedExtractionOutput
        \<and> process_extraction loads st n (Some ''not json'') = (st, ErrorNotJson)
        \<and> (pending_state st = Idle \<longrightarrow>
             pending_state (fst (process_extraction loads st n (Some ''not json''))) = Idle)"
    if "loads ''not json'' = Inl JSONDecodeError"
    using a [of "''not json''"] a' [of "''not json''"] that by (simp add: clean_reply_examples(1))
  have e: "MalformedExtractionOutput \<noteq> ExtractionServiceError"
    by simp
  show ?thesis
    using iff a [of raw] o b c d e clean_reply_examples(1,2) by blast
qed

text \<open>
  An instance: a decoder that decodes the empty object, raises \<^verbatim>\<open>RecursionError\<close> on a
  hundred thousand opening brackets and \<^verbatim>\<open>JSONDecodeError\<close> on every other text, and a
  new session.
\<close>

theorem malformed_reply_stores_nothing_witness:
  "(\<lambda>s. if s = ''{}'' then Inr (JObj [])
         else if s = replicate 100000 (CHR ''['') then Inl RecursionError
         else Inl JSONDecodeError) ''not json'' = Inl JSONDecodeError
   \<and> pending_state \<lparr>ss_extracted = None, ss_n_processo = None, ss_ready_to_save = False\<rparr> = Idle
   \<and> extract_with_gemini
        (\<lambda>s. if s = ''{}'' then Inr (JObj [])
              else if s = replicate 100000 (CHR ''['') then Inl RecursionError
              else Inl JSONDecodeError) (Some ''not json'')
       = Inl MalformedExtractionOutput
   \<and> process_extraction
        (\<lambda>s. if s = ''{}'' then Inr (JObj [])
              else if s = replicate 100000 (CHR ''['') then Inl RecursionError
              else Inl JSONDecodeError)
        \<lparr>ss_extracted = None, ss_n_processo = None, ss_ready_to_save = False\<rparr> ''123456''
        (Some ''not json'')
       = (\<lparr>ss_extracted = None, ss_n_processo = None, ss_ready_to_save = False\<rparr>, ErrorNotJson)
   \<and> pending_state (fst (process_extraction
        (\<lambda>s. if s = ''{}'' then Inr (JObj [])
              else if s = replicate 100000 (CHR ''['') then Inl RecursionError
              else Inl JSONDecodeError)
        \<lparr>ss_extracted = None, ss_n_processo = None, ss_ready_to_save = False\<rparr> ''123456''
        (Some ''not json''))) = Idle
   \<and> process_extraction
        (\<lambda>s. if s = ''{}'' then Inr (JObj [])
              else if s = replicate 100000 (CHR ''['') then Inl RecursionError
              else Inl JSONDecodeError)
        \<lparr>ss_extracted = None, ss_n_processo = None, ss_ready_to_save = False\<rparr> ''123456''
        (Some (replicate 100000 (CHR ''[''))) 
       = (\<lparr>ss_extracted = None, ss_n_processo = None, ss_ready_to_save = False\<rparr>, ErrorExtraction)
   \<and> pending_state (fst (process_extraction
        (\<lambda>s. if s = ''{}'' then Inr (JObj [])
              else if s = replicate 100000 (CHR ''['') then Inl RecursionError
              else Inl JSONDecodeError)
        \<lparr>ss_extracted = None, ss_n_processo = None, ss_ready_to_save = False\<rparr> ''123456''
        (Some (''```json'' @ [CHR 0x0A] @ ''{}'' @ [CHR 0x0A] @ ''```'')))) = PendingReview"
proof -
  let ?deep = "replicate 100000 (CHR ''['')"
  let ?loads = "\<lambda>s::string. if s = ''{}'' then Inr (JObj [])
         else if s = ?deep then Inl RecursionError else Inl JSONDecodeError"
  let ?st = "\<lparr>ss_extracted = None, ss_n_processo = None, ss_ready_to_save = False\<rparr>"
  have n1: "''not json'' \<noteq> ?deep"
  proof
    assume "''not json'' = ?deep"
    then have "length ''not json'' = length ?deep"
      by (rule arg_cong)
    then show False
      by simp
  qed
  have n2: "?deep \<noteq> ''{}''"
  proof
    assume "?deep = ''{}''"
    then have "length ?deep = length ''{}''"
      by (rule arg_cong)
    then show False
      by simp
  qed
  have l: "?loads ''not json'' = Inl JSONDecodeError"
    using n1 by simp
  have c: "clean_reply ''not json'' = ''not json''"
    using malformed_reply_stores_nothing by blast
  have l': "?loads (clean_reply ''not json'') = Inl JSONDecodeError" unfolding c by (rule l)
  have i: "pending_state ?st = Idle" by (simp add: pending_state_def)
  have c2: "clean_reply (''```json'' @ [CHR 0x0A] @ ''{}'' @ [CHR 0x0A] @ ''```'') = ''{}''"
    by code_simp
  have l2: "?loads (clean_reply (''```json'' @ [CHR 0x0A] @ ''{}'' @ [CHR 0x0A] @ ''```''))
            = Inr (JObj [])"
    unfolding c2 by simp
  have c3: "clean_reply ?deep = ?deep"
    by (rule clean_reply_replicate) (simp_all add: is_space_def)
  have l3: "?loads (clean_reply ?deep) = Inl RecursionError"
    unfolding c3 using n2 by simp
  have 1: "extract_with_gemini ?loads (Some ''not json'') = Inl MalformedExtractionOutput"
    "process_extraction ?loads ?st ''123456'' (Some ''not json'') = (?st, ErrorNotJson)"
    "pending_state (fst (process_extraction ?loads ?st ''123456'' (Some ''not json''))) = Idle"
    using malformed_reply_stores_nothing [of ?loads "''not json''" ?st "''123456''"] l' i
    by simp_all
  have 2: "pending_state (fst (process_extraction ?loads ?st ''123456''
             (Some (''```json'' @ [CHR 0x0A] @ ''{}'' @ [CHR 0x0A] @ ''```'')))) = PendingReview"
    using malformed_reply_stores_nothing
      [of ?loads "''```json'' @ [CHR 0x0A] @ ''{}'' @ [CHR 0x0A] @ ''```''" ?st "''123456''" "JObj []"]
      l2 by blast
  have 3: "process_extraction ?loads ?st ''123456'' (Some ?deep) = (?st, ErrorExtraction)"
    using malformed_reply_stores_nothing [of ?loads ?deep ?st "''123456''"] l3 by blast
  show ?thesis
    using l i 1 2 3 by blast
qed

text \<open>
  A reply that is JSON but not a record: the text \<^verbatim>\<open>null\<close>, which \<^verbatim>\<open>json.loads\<close> decodes
  to \<^verbatim>\<open>None\<close>. The extraction does not fail, and from the idle state the session goes
  to the review with \<^verbatim>\<open>None\<close> as its pending record, on which the row builder raises.
\<close>

theorem malformed_reply_stores_nothing_counterexample:
  "clean_reply ''null'' = ''null''
   \<and> extract_with_gemini (\<lambda>s. if s = ''null'' then Inr JNull else Inl JSONDecodeError)
        (Some ''null'') = Inr JNull
   \<and> extract_with_gemini (\<lambda>s. if s = ''null'' then Inr JNull else Inl JSONDecodeError)
        (Some ''null'') \<noteq> Inl MalformedExtractionOutput
   \<and> pending_state \<lparr>ss_extracted = None, ss_n_processo = None, ss_ready_to_save = False\<rparr> = Idle
   \<and> process_extraction (\<lambda>s. if s = ''null'' then Inr JNull else Inl JSONDecodeError)
        \<lparr>ss_extracted = None, ss_n_processo = None, ss_ready_to_save = False\<rparr> ''123456''
        (Some ''null'')
       = (\<lparr>ss_extracted = Some JNull, ss_n_processo = Some ''123456'',
            ss_ready_to_save = True\<rparr>, Success)
   \<and> pending_state (fst (process_extraction
        (\<lambda>s. if s = ''null'' then Inr JNull else Inl JSONDecodeError)
        \<lparr>ss_extracted = None, ss_n_processo = None, ss_ready_to_save = False\<rparr> ''123456''
        (Some ''null''))) = PendingReview
   \<and> build_doentes_row (\<lambda>v. []) \<lparr>year = 2024, month = 3, day = 9\<rparr> ''123456'' JNull
       = Inl TypeError"
proof -
  have c: "clean_reply ''null'' = ''null''"
    by (rule clean_reply_examples(4))
  have b: "build_doentes_row (\<lambda>v. []) \<lparr>year = 2024, month = 3, day = 9\<rparr> ''123456'' JNull
       = Inl TypeError"
    by (simp add: build_doentes_row_def)
  show ?thesis
    using c b by (simp add: extract_with_gemini_def process_extraction_def pending_state_def)
qed

section \<open>Medication columns\<close>

lemma chunk_of_concat:
  "(\<And>k. length (f k) = 3) \<Longrightarrow> i < length ks \<Longrightarrow>
   take 3 (drop (3 * i) (concat (map f ks) @ rest)) = f (ks ! i)"
proof (induction ks arbitrary: i)
  case Nil
  then show ?case by simp
next
  case (Cons k ks)
  show ?case
  proof (cases i)
    case 0
    then show ?thesis using Cons.prems(1) [of k] by simp
  next
    case (Suc j)
    have "3 * i = 3 + 3 * j" using Suc by simp
    then have "drop (3 * i) (concat (map f (k # ks)) @ rest) = drop (3 * j) (concat (map f ks) @ rest)"
      using Cons.prems(1) [of k] by simp
    then show ?thesis using Cons.IH [of j] Cons.prems Suc by simp
  qed
qed

lemma length_med_cells: "length (med_cells R d c) = 3"
  by (simp add: med_cells_def get_cells_def)

lemma drop_34_doentes_cells:
  "drop 34 (doentes_cells R today n d) = concat (map (med_cells R d) MED_KEYS) @ [isoformat today]"
  by (simp add: doentes_cells_def get_cells_def)

lemma length_MED_KEYS: "length MED_KEYS = 12"
  by (simp add: MED_KEYS_def)

lemma med_cells_position:
  assumes "i < 12"
  shows "take 3 (drop (34 + 3 * i) (doentes_cells R today n d)) = med_cells R d (MED_KEYS ! i)"
proof -
  have "drop (34 + 3 * i) (doentes_cells R today n d)
        = drop (3 * i) (drop 34 (doentes_cells R today n d))"
    by (simp add: add.commute)
  then show ?thesis
    using chunk_of_concat [of "med_cells R d" i MED_KEYS "[isoformat today]"] assms
    by (simp add: drop_34_doentes_cells length_med_cells length_MED_KEYS)
qed

lemma last_doentes_cells: "doentes_cells R today n d ! 70 = isoformat today"
  by (simp add: doentes_cells_def get_cells_def med_cells_def MED_KEYS_def)

lemma med3_empty:
  assumes "map_of m c = None \<or> map_of m c = Some JNull
           \<or> map_of m c = Some (JObj [(''presente'', JNull), (''farmaco'', JNull), (''dose'', JNull)])"
  shows "med3 R (JObj m) c = Inr [[], [], []]"
  using assms by (auto simp: med3_def get_def py_or_def cell_def)

lemma med3_cong: "map_of kvs2 = map_of kvs \<Longrightarrow> med3 R (JObj kvs2) c = med3 R (JObj kvs) c"
  by (simp add: med3_def get_def)

lemma build_doentes_row_med_order:
  assumes "map_of kvs2 = map_of kvs"
  shows "build_doentes_row R today n (set_at [''doente'', ''medicacao''] (JObj kvs2) e)
         = build_doentes_row R today n (set_at [''doente'', ''medicacao''] (JObj kvs) e)"
proof (cases e)
  case (JObj ekvs)
  show ?thesis
  proof (cases "subrec e ''doente''")
    case d: (JObj dkvs)
    have e2: "set_at [''doente'', ''medicacao''] (JObj kvsx) e
          = JObj (AList.update ''doente'' (JObj (AList.update ''medicacao'' (JObj kvsx) dkvs)) ekvs)"
      for kvsx
      using JObj d by (simp add: subrec_def)
    show ?thesis
      unfolding e2 build_doentes_row_def
      by (simp add: update_conv' get_def med3_cong [OF assms] cells_obj get_cells_def field_update
          del: cells.simps)
  qed (simp_all add: JObj)
qed simp_all

text \<open>
  C2. In every row \<open>build_doentes_row\<close> returns, the three cells from position
  \<open>34 + 3 * i\<close> are what \<^verbatim>\<open>med3\<close> gives for the \<open>i\<close>-th of the twelve classes, in
  the order rasi, mra, isglt2, glp1ra, estatina, diuretico_ansa, diuretico_tiazida,
  acetazolamida, beta_bloqueante, antiagregante, anticoagulante, ivabradina; the row has
  71 cells and the last is the date of the day. The three cells of a class are its
  presence, agent and dose in this order. A class that is absent, null or whose three
  fields are null gives three empty strings, so the cells of the other classes and the
  last cell stay where they are. Two medication dicts with the same items in a
  different order give the same row.
\<close>

theorem medication_columns:
  "MED_KEYS = [''rasi'', ''mra'', ''isglt2'', ''glp1ra'', ''estatina'', ''diuretico_ansa'',
               ''diuretico_tiazida'', ''acetazolamida'', ''beta_bloqueante'', ''antiagregante'',
               ''anticoagulante'', ''ivabradina'']
   \<and> (build_doentes_row R today n e = Inr row \<longrightarrow>
        length row = 71
        \<and> (\<forall>i<12. med3 R (subrec (field e ''doente'') ''medicacao'') (MED_KEYS ! i)
                      = Inr (take 3 (drop (34 + 3 * i) row)))
        \<and> row ! 70 = isoformat today)
   \<and> (map_of m c = None \<or> map_of m c = Some JNull
        \<or> map_of m c = Some (JObj [(''presente'', JNull), (''farmaco'', JNull), (''dose'', JNull)])
       \<longrightarrow> med3 R (JObj m) c = Inr [[], [], []])
   \<and> (map_of m c = Some (JObj x) \<longrightarrow>
        med3 R (JObj m) c = Inr [sv R (field (JObj x) ''presente''), sv R (field (JObj x) ''farmaco''),
                                 sv R (field (JObj x) ''dose'')])
   \<and> (distinct (map fst kvs) \<and> distinct (map fst kvs') \<and> set kvs' = set kvs \<longrightarrow>
        build_doentes_row R today n (set_at [''doente'', ''medicacao''] (JObj kvs') e)
        = build_doentes_row R today n (set_at [''doente'', ''medicacao''] (JObj kvs) e))"
proof -
  have keys: "MED_KEYS = [''rasi'', ''mra'', ''isglt2'', ''glp1ra'', ''estatina'', ''diuretico_ansa'',
               ''diuretico_tiazida'', ''acetazolamida'', ''beta_bloqueante'', ''antiagregante'',
               ''anticoagulante'', ''ivabradina'']"
    by (simp add: MED_KEYS_def)
  have pos: "length row = 71
        \<and> (\<forall>i<12. med3 R (subrec (field e ''doente'') ''medicacao'') (MED_KEYS ! i)
                      = Inr (take 3 (drop (34 + 3 * i) row)))
        \<and> row ! 70 = isoformat today"
    if b: "build_doentes_row R today n e = Inr row"
  proof -
    have ok: "doentes_ok e" using b by (rule build_doentes_row_Inr_ok)
    then obtain dkvs where dok: "doente_ok (JObj dkvs)" and f: "field e ''doente'' = JObj dkvs"
      by (rule doentes_ok_obj)
    let ?d = "JObj dkvs"
    have row: "row = doentes_cells R today n ?d"
      using build_doentes_row_ok [OF ok, of R today n] b f by simp
    have mo: "is_obj (subrec ?d ''medicacao'')"
      using dok by (simp add: doente_ok_def)
    have me: "med_entry_ok (field (subrec ?d ''medicacao'') (MED_KEYS ! i))" if "i < 12" for i
      using dok that by (simp add: doente_ok_def list_all_length length_MED_KEYS)
    have "med3 R (subrec ?d ''medicacao'') (MED_KEYS ! i) = Inr (take 3 (drop (34 + 3 * i) row))"
      if "i < 12" for i
      using med3_ok [OF mo me [OF that], of R] med_cells_position [OF that, of R today n ?d]
      by (simp add: row)
    then show ?thesis
      by (simp add: row f length_doentes_cells last_doentes_cells)
  qed
  have obj: "med3 R (JObj m) c = Inr [sv R (field (JObj x) ''presente''), sv R (field (JObj x) ''farmaco''),
                                 sv R (field (JObj x) ''dose'')]"
    if "map_of m c = Some (JObj x)"
  proof (cases "x = []")
    case True
    then show ?thesis using that by (simp add: med3_def get_def py_or_def cell_def field_def)
  next
    case False
    then show ?thesis using that by (simp add: med3_def get_def py_or_def cell_def field_def)
  qed
  have perm: "build_doentes_row R today n (set_at [''doente'', ''medicacao''] (JObj kvs') e)
        = build_doentes_row R today n (set_at [''doente'', ''medicacao''] (JObj kvs) e)"
    if "distinct (map fst kvs) \<and> distinct (map fst kvs') \<and> set kvs' = set kvs"
  proof -
    have "map_of kvs' = map_of kvs"
      using that by (simp add: map_of_inject_set)
    then show ?thesis by (rule build_doentes_row_med_order)
  qed
  show ?thesis
    using keys pos med3_empty [of m c R] obj perm by blast
qed

text \<open>An instance: \<^verbatim>\<open>mra\<close> written before \<^verbatim>\<open>rasi\<close>, \<^verbatim>\<open>isglt2\<close> absent.\<close>

theorem medication_columns_witness:
  "(\<exists>row. build_doentes_row (\<lambda>v. []) \<lparr>year = 2024, month = 3, day = 9\<rparr> ''123456''
       (JObj [(''doente'', JObj [(''medicacao'',
          JObj [(''mra'', JNull),
                (''rasi'', JObj [(''presente'', JBool True), (''farmaco'', JStr ''losartan''),
                                 (''dose'', JStr ''50mg'')])])])]) = Inr row
      \<and> length row = 71
      \<and> take 3 (drop 34 row) = [''Sim'', ''losartan'', ''50mg'']
      \<and> take 3 (drop 37 row) = [[], [], []]
      \<and> take 3 (drop 40 row) = [[], [], []]
      \<and> row ! 70 = isoformat \<lparr>year = 2024, month = 3, day = 9\<rparr>)
   \<and> build_doentes_row (\<lambda>v. []) \<lparr>year = 2024, month = 3, day = 9\<rparr> ''123456''
       (set_at [''doente'', ''medicacao'']
          (JObj [(''rasi'', JObj [(''presente'', JBool True)]), (''mra'', JNull)])
          (JObj [(''doente'', JObj [])]))
     = build_doentes_row (\<lambda>v. []) \<lparr>year = 2024, month = 3, day = 9\<rparr> ''123456''
       (set_at [''doente'', ''medicacao'']
          (JObj [(''mra'', JNull), (''rasi'', JObj [(''presente'', JBool True)])])
          (JObj [(''doente'', JObj [])]))"
proof -
  let ?R = "\<lambda>v::json. []::string"
  let ?t = "\<lparr>year = 2024, month = 3, day = 9\<rparr>"
  let ?ras = "JObj [(''presente'', JBool True), (''farmaco'', JStr ''losartan''), (''dose'', JStr ''50mg'')]"
  let ?m = "[(''mra'', JNull), (''rasi'', ?ras)]"
  let ?e = "JObj [(''doente'', JObj [(''medicacao'', JObj ?m)])]"
  have ok: "doentes_ok ?e"
    by (simp add: doentes_ok_def doente_ok_def is_obj_def subrec_def field_def med_entry_ok_def
        DOENTE_SUBRECORDS_def MED_KEYS_def)
  obtain row where b: "build_doentes_row ?R ?t ''123456'' ?e = Inr row"
    using build_doentes_row_ok [OF ok] by blast
  have sf: "subrec (field ?e ''doente'') ''medicacao'' = JObj ?m"
    by (simp add: subrec_def field_def)
  note mc = medication_columns [where R = ?R and today = ?t and n = "''123456''" and e = ?e
      and row = row]
  have len: "length row = 71" and last: "row ! 70 = isoformat ?t"
    using mc b by blast+
  have at: "med3 ?R (JObj ?m) (MED_KEYS ! i) = Inr (take 3 (drop (34 + 3 * i) row))" if "i < 12" for i
    using mc b that unfolding sf by blast
  have k: "MED_KEYS ! 0 = ''rasi''" "MED_KEYS ! Suc 0 = ''mra''" "MED_KEYS ! 2 = ''isglt2''"
    by (simp_all add: MED_KEYS_def)
  have m0: "med3 ?R (JObj ?m) ''rasi'' = Inr [''Sim'', ''losartan'', ''50mg'']"
    using medication_columns [where m = ?m and c = "''rasi''" and R = ?R
        and x = "[(''presente'', JBool True), (''farmaco'', JStr ''losartan''), (''dose'', JStr ''50mg'')]"]
    by (simp add: field_def)
  have m1: "med3 ?R (JObj ?m) ''mra'' = Inr [[], [], []]"
    using medication_columns [where m = ?m and c = "''mra''" and R = ?R] by simp
  have m2: "med3 ?R (JObj ?m) ''isglt2'' = Inr [[], [], []]"
    using medication_columns [where m = ?m and c = "''isglt2''" and R = ?R] by simp
  have c0: "take 3 (drop 34 row) = [''Sim'', ''losartan'', ''50mg'']"
    using at [of 0] m0 by (simp add: k)
  have c1: "take 3 (drop 37 row) = [[], [], []]"
    using at [of 1] m1 by (simp add: k)
  have c2: "take 3 (drop 40 row) = [[], [], []]"
    using at [of 2] m2 by (simp add: k)
  have p: "build_doentes_row ?R ?t ''123456''
       (set_at [''doente'', ''medicacao'']
          (JObj [(''rasi'', JObj [(''presente'', JBool True)]), (''mra'', JNull)])
          (JObj [(''doente'', JObj [])]))
     = build_doentes_row ?R ?t ''123456''
       (set_at [''doente'', ''medicacao'']
          (JObj [(''mra'', JNull), (''rasi'', JObj [(''presente'', JBool True)])])
          (JObj [(''doente'', JObj [])]))"
    using medication_columns [where R = ?R and today = ?t and n = "''123456''"
        and e = "JObj [(''doente'', JObj [])]"
        and kvs = "[(''mra'', JNull), (''rasi'', JObj [(''presente'', JBool True)])]"
        and kvs' = "[(''rasi'', JObj [(''presente'', JBool True)]), (''mra'', JNull)]"]
    by auto
  show ?thesis
    using b len c0 c1 c2 last p by blast
qed

section \<open>Absent fields\<close>

lemma absent_at_field: "absent_at [k] x \<Longrightarrow> field x k = JNull \<and> is_obj x"
  by (cases x) (simp_all add: field_def is_obj_def split: option.splits)

lemma absent_at_subrec_empty: "absent_at [k] x \<Longrightarrow> subrec x k = JObj []"
  by (cases x) (simp_all add: subrec_def split: option.splits)

lemma absent_at_subrec: "absent_at (s # k # p) x \<Longrightarrow> absent_at (k # p) (subrec x s)"
proof (cases x)
  case (JObj kvs)
  assume a: "absent_at (s # k # p) x"
  show ?thesis
  proof (cases "map_of kvs s")
    case None
    then show ?thesis by (simp add: JObj subrec_def)
  next
    case (Some c)
    then show ?thesis using a by (simp add: JObj subrec_def del: absent_at.simps(2))
        (simp add: JObj Some)
  qed
qed simp_all

lemma absent_obj:
  assumes "absent_at [k] x"
  obtains kvs where "x = JObj kvs" "map_of kvs k = None"
  using assms by (cases x) (auto split: option.splits)

lemma field_update_absent:
  "map_of kvs k = None \<Longrightarrow> field (JObj (AList.update k JNull kvs)) k' = field (JObj kvs) k'"
  by (cases "k' = k") (simp_all add: field_def update_conv')

lemma subrec_update_absent:
  "map_of kvs k = None \<Longrightarrow> subrec (JObj (AList.update k (JObj []) kvs)) k' = subrec (JObj kvs) k'"
  by (cases "k' = k") (simp_all add: subrec_def update_conv')

lemma doentes_cells_cong:
  assumes "\<And>k. k \<notin> set (''medicacao'' # DOENTE_SUBRECORDS) \<Longrightarrow> field d' k = field d k"
    and "\<And>s k. s \<in> set DOENTE_SUBRECORDS \<Longrightarrow> field (subrec d' s) k = field (subrec d s) k"
    and "\<And>c f. field (med_entry d' c) f = field (med_entry d c) f"
  shows "doentes_cells R today n d' = doentes_cells R today n d"
proof -
  have m: "med_cells R d' = med_cells R d"
    by (rule ext) (simp add: med_cells_def get_cells_def assms(3))
  show ?thesis
    by (simp add: doentes_cells_def get_cells_def age_cell_def m assms(1,2) DOENTE_SUBRECORDS_def)
qed

lemma visitas_cells_cong:
  assumes "\<And>k. k \<notin> set VISITA_SUBRECORDS \<Longrightarrow> field v' k = field v k"
    and "\<And>s k. s \<in> set VISITA_SUBRECORDS \<Longrightarrow> field (subrec v' s) k = field (subrec v s) k"
  shows "visitas_cells R n v' = visitas_cells R n v"
  by (simp add: visitas_cells_def get_cells_def assms VISITA_SUBRECORDS_def)

lemma visitas_ok_obj:
  assumes "visitas_ok e"
  obtains ekvs vkvs where "e = JObj ekvs" "map_of ekvs ''visita'' = Some (JObj vkvs)"
    "visita_ok (JObj vkvs)" "field e ''visita'' = JObj vkvs" "subrec e ''visita'' = JObj vkvs"
proof -
  obtain ekvs where e: "e = JObj ekvs"
    using assms by (cases e) (simp_all add: visitas_ok_def)
  obtain v where m: "map_of ekvs ''visita'' = Some v" and ok: "visita_ok v"
    using assms by (auto simp: visitas_ok_def e split: option.splits)
  obtain vkvs where v: "v = JObj vkvs"
    using ok by (cases v) (simp_all add: visita_ok_def is_obj_def)
  show ?thesis
    using that [of ekvs vkvs] e m ok v by (simp add: field_def subrec_def)
qed

lemma visitas_ok_update:
  "visitas_ok (JObj (AList.update ''visita'' v ekvs)) = visita_ok v"
  by (simp add: visitas_ok_def update_conv')

lemma other_side_doente:
  "visitas_ok (JObj (AList.update ''doente'' d ekvs)) = visitas_ok (JObj ekvs)"
  "build_visitas_row R n (JObj (AList.update ''doente'' d ekvs)) = build_visitas_row R n (JObj ekvs)"
  by (simp_all add: visitas_ok_def build_visitas_row_def update_conv')

lemma other_side_visita:
  "doentes_ok (JObj (AList.update ''visita'' v ekvs)) = doentes_ok (JObj ekvs)"
  "build_doentes_row R today n (JObj (AList.update ''visita'' v ekvs))
     = build_doentes_row R today n (JObj ekvs)"
  by (simp_all add: doentes_ok_def build_doentes_row_def update_conv')

text \<open>A change of the patient that keeps the cells.\<close>

lemma doente_change:
  assumes ok: "doentes_ok e" and e: "e = JObj ekvs"
    and dok: "doente_ok d'" and c: "doentes_cells R today n d' = doentes_cells R today n (field e ''doente'')"
  shows "doentes_ok (JObj (AList.update ''doente'' d' ekvs))
    \<and> visitas_ok (JObj (AList.update ''doente'' d' ekvs)) = visitas_ok e
    \<and> build_doentes_row R today n (JObj (AList.update ''doente'' d' ekvs)) = build_doentes_row R today n e
    \<and> build_visitas_row R n (JObj (AList.update ''doente'' d' ekvs)) = build_visitas_row R n e"
proof -
  let ?e' = "JObj (AList.update ''doente'' d' ekvs)"
  have ok': "doentes_ok ?e'" using dok by (simp add: doentes_ok_update)
  have "build_doentes_row R today n ?e' = Inr (doentes_cells R today n d')"
    using build_doentes_row_ok [OF ok'] by (simp add: field_doente_update)
  moreover have "build_doentes_row R today n e = Inr (doentes_cells R today n (field e ''doente''))"
    using build_doentes_row_ok [OF ok] .
  ultimately show ?thesis
    using ok' c by (simp add: e other_side_doente)
qed

lemma visita_change:
  assumes ok: "visitas_ok e" and e: "e = JObj ekvs"
    and vok: "visita_ok v'" and c: "visitas_cells R n v' = visitas_cells R n (field e ''visita'')"
  shows "visitas_ok (JObj (AList.update ''visita'' v' ekvs))
    \<and> doentes_ok (JObj (AList.update ''visita'' v' ekvs)) = doentes_ok e
    \<and> build_visitas_row R n (JObj (AList.update ''visita'' v' ekvs)) = build_visitas_row R n e
    \<and> build_doentes_row R today n (JObj (AList.update ''visita'' v' ekvs)) = build_doentes_row R today n e"
proof -
  let ?e' = "JObj (AList.update ''visita'' v' ekvs)"
  have ok': "visitas_ok ?e'" using vok by (simp add: visitas_ok_update)
  have "build_visitas_row R n ?e' = Inr (visitas_cells R n v')"
    using build_visitas_row_ok [OF ok'] by (simp add: field_update)
  moreover have "build_visitas_row R n e = Inr (visitas_cells R n (field e ''visita''))"
    using build_visitas_row_ok [OF ok] .
  ultimately show ?thesis
    using ok' c by (simp add: e other_side_visita)
qed

lemma set_at_single: "set_at [k] v (JObj kvs) = JObj (AList.update k v kvs)"
  by simp

lemma set_at_double:
  "subrec (JObj kvs) s = JObj skvs \<Longrightarrow>
   set_at [s, k] v (JObj kvs) = JObj (AList.update s (JObj (AList.update k v skvs)) kvs)"
  by simp

lemma doente_ok_obj:
  assumes "doente_ok d"
  obtains dkvs where "d = JObj dkvs"
  using assms by (cases d) (simp_all add: doente_ok_def is_obj_def)

lemma visita_ok_obj:
  assumes "visita_ok v"
  obtains vkvs where "v = JObj vkvs"
  using assms by (cases v) (simp_all add: visita_ok_def is_obj_def)

lemma doente_ok_subrec:
  assumes "doente_ok d" "s \<in> set (''medicacao'' # DOENTE_SUBRECORDS)"
  obtains skvs where "subrec d s = JObj skvs"
proof -
  have "is_obj (subrec d s)"
    using assms by (auto simp: doente_ok_def DOENTE_SUBRECORDS_def)
  then show ?thesis
    using that by (cases "subrec d s") (simp_all add: is_obj_def)
qed

lemma visita_ok_subrec:
  assumes "visita_ok v" "s \<in> set VISITA_SUBRECORDS"
  obtains skvs where "subrec v s = JObj skvs"
proof -
  have "is_obj (subrec v s)"
    using assms by (auto simp: visita_ok_def VISITA_SUBRECORDS_def)
  then show ?thesis
    using that by (cases "subrec v s") (simp_all add: is_obj_def)
qed

text \<open>A field of the patient.\<close>

lemma doente_leaf:
  assumes ok: "doente_ok d" and k: "k \<notin> set (''medicacao'' # DOENTE_SUBRECORDS)"
    and a: "absent_at [k] d"
  shows "doente_ok (set_at [k] JNull d)
    \<and> doentes_cells R today n (set_at [k] JNull d) = doentes_cells R today n d"
proof -
  from a obtain dkvs where d: "d = JObj dkvs" and m: "map_of dkvs k = None"
    by (rule absent_obj)
  let ?d' = "JObj (AList.update k JNull dkvs)"
  have ok': "doente_ok ?d'"
    using ok k by (simp add: d doente_ok_update_leaf)
  have ne: "k \<noteq> ''medicacao''" using k by simp
  have c: "doentes_cells R today n ?d' = doentes_cells R today n (JObj dkvs)"
  proof (rule doentes_cells_cong)
    show "field ?d' k' = field (JObj dkvs) k'" for k'
      using m by (rule field_update_absent)
    show "field (subrec ?d' s) k' = field (subrec (JObj dkvs) s) k'"
      if "s \<in> set DOENTE_SUBRECORDS" for s k'
    proof -
      have "s \<noteq> k" using that k by auto
      then show ?thesis by (simp add: subrec_update_other)
    qed
    show "field (med_entry ?d' c) f = field (med_entry (JObj dkvs) c) f" for c f
      using ne by (simp add: med_entry_update_other)
  qed
  show ?thesis using ok' c by (simp add: d)
qed

text \<open>A field of a sub-record of the patient.\<close>

lemma doente_sub_leaf:
  assumes ok: "doente_ok d" and s: "s \<in> set DOENTE_SUBRECORDS"
    and a: "absent_at [s, k] d"
  shows "doente_ok (set_at [s, k] JNull d)
    \<and> doentes_cells R today n (set_at [s, k] JNull d) = doentes_cells R today n d"
proof -
  from ok obtain dkvs where d: "d = JObj dkvs" by (rule doente_ok_obj)
  have "absent_at [k] (subrec d s)" using a by (rule absent_at_subrec)
  then obtain skvs where sr: "subrec d s = JObj skvs" and m: "map_of skvs k = None"
    by (rule absent_obj)
  let ?s' = "JObj (AList.update k JNull skvs)"
  let ?d' = "JObj (AList.update s ?s' dkvs)"
  have d': "set_at [s, k] JNull d = ?d'"
    using sr by (simp add: d)
  have sne: "s \<noteq> ''medicacao''" using s by (auto simp: DOENTE_SUBRECORDS_def)
  have ok': "doente_ok ?d'"
    using ok s unfolding d
    by (auto simp: doente_ok_def DOENTE_SUBRECORDS_def subrec_update is_obj_def)
  have c: "doentes_cells R today n ?d' = doentes_cells R today n (JObj dkvs)"
  proof (rule doentes_cells_cong)
    show "field ?d' k' = field (JObj dkvs) k'"
      if "k' \<notin> set (''medicacao'' # DOENTE_SUBRECORDS)" for k'
    proof -
      have "k' \<noteq> s" using that s by auto
      then show ?thesis by (simp add: field_update_other)
    qed
    show "field (subrec ?d' t) k' = field (subrec (JObj dkvs) t) k'" for t k'
    proof (cases "t = s")
      case True
      then show ?thesis
        using sr m by (simp add: subrec_update d field_update_absent)
    next
      case False
      then show ?thesis by (simp add: subrec_update_other)
    qed
    show "field (med_entry ?d' c) f = field (med_entry (JObj dkvs) c) f" for c f
      using sne by (simp add: med_entry_update_other)
  qed
  show ?thesis unfolding d' using ok' c by (simp add: d)
qed

text \<open>A medication class.\<close>

lemma doente_med_class:
  assumes ok: "doente_ok d" and a: "absent_at [''medicacao'', c] d"
  shows "doente_ok (set_at [''medicacao'', c] JNull d)
    \<and> doentes_cells R today n (set_at [''medicacao'', c] JNull d) = doentes_cells R today n d"
proof -
  from ok obtain dkvs where d: "d = JObj dkvs" by (rule doente_ok_obj)
  have "absent_at [c] (subrec d ''medicacao'')" using a by (rule absent_at_subrec)
  then obtain mkvs where sr: "subrec d ''medicacao'' = JObj mkvs" and m: "map_of mkvs c = None"
    by (rule absent_obj)
  let ?m' = "JObj (AList.update c JNull mkvs)"
  let ?d' = "JObj (AList.update ''medicacao'' ?m' dkvs)"
  have d': "set_at [''medicacao'', c] JNull d = ?d'"
    using sr by (simp add: d)
  have fm: "field ?m' c' = field (JObj mkvs) c'" for c'
    using m by (rule field_update_absent)
  have ok': "doente_ok ?d'"
    using ok sr unfolding d
    by (simp add: doente_ok_def DOENTE_SUBRECORDS_def subrec_update is_obj_def fm)
  have c: "doentes_cells R today n ?d' = doentes_cells R today n (JObj dkvs)"
  proof (rule doentes_cells_cong)
    show "field ?d' k' = field (JObj dkvs) k'"
      if "k' \<notin> set (''medicacao'' # DOENTE_SUBRECORDS)" for k'
      using that by (simp add: field_update_other)
    show "field (subrec ?d' t) k' = field (subrec (JObj dkvs) t) k'"
      if "t \<in> set DOENTE_SUBRECORDS" for t k'
    proof -
      have "t \<noteq> ''medicacao''" using that by (auto simp: DOENTE_SUBRECORDS_def)
      then show ?thesis by (simp add: subrec_update_other)
    qed
    show "field (med_entry ?d' c') f = field (med_entry (JObj dkvs) c') f" for c' f
      using sr by (simp add: med_entry_def subrec_update fm d)
  qed
  show ?thesis unfolding d' using ok' c by (simp add: d)
qed

text \<open>A field of a medication class.\<close>

lemma py_or_subrec:
  "subrec (JObj mkvs) c = JObj xkvs \<Longrightarrow> py_or (field (JObj mkvs) c) (JObj []) = JObj xkvs"
  by (cases "map_of mkvs c") (auto simp: subrec_def field_def py_or_def)

lemma doente_med_field:
  assumes ok: "doente_ok d" and a: "absent_at [''medicacao'', c, f] d"
  shows "doente_ok (set_at [''medicacao'', c, f] JNull d)
    \<and> doentes_cells R today n (set_at [''medicacao'', c, f] JNull d) = doentes_cells R today n d"
proof -
  from ok obtain dkvs where d: "d = JObj dkvs" by (rule doente_ok_obj)
  obtain mkvs where sr: "subrec d ''medicacao'' = JObj mkvs"
    using doente_ok_subrec [OF ok, of "''medicacao''"] by auto
  have "absent_at [c, f] (subrec d ''medicacao'')" using a by (rule absent_at_subrec)
  then have "absent_at [f] (subrec (JObj mkvs) c)" unfolding sr by (rule absent_at_subrec)
  then obtain xkvs where x: "subrec (JObj mkvs) c = JObj xkvs" and m: "map_of xkvs f = None"
    by (rule absent_obj)
  let ?x' = "JObj (AList.update f JNull xkvs)"
  let ?m' = "JObj (AList.update c ?x' mkvs)"
  let ?d' = "JObj (AList.update ''medicacao'' ?m' dkvs)"
  have d': "set_at [''medicacao'', c, f] JNull d = ?d'"
    using sr x by (simp add: d)
  have old: "med_entry d c = JObj xkvs"
    using py_or_subrec [OF x] by (simp add: med_entry_def sr)
  have new: "med_entry ?d' c' = (if c' = c then ?x' else med_entry d c')" for c'
    by (simp add: med_entry_def subrec_update field_update py_or_def sr [unfolded d] d)
  have okm: "med_entry_ok (field ?m' c') = (if c' = c then True else med_entry_ok (field (JObj mkvs) c'))"
    for c'
    by (simp add: field_update med_entry_ok_def is_obj_def)
  have ok': "doente_ok ?d'"
    using ok sr unfolding d
    by (simp add: doente_ok_def DOENTE_SUBRECORDS_def subrec_update is_obj_def okm list_all_iff)
  have c: "doentes_cells R today n ?d' = doentes_cells R today n d"
  proof (rule doentes_cells_cong)
    show "field ?d' k' = field d k'"
      if "k' \<notin> set (''medicacao'' # DOENTE_SUBRECORDS)" for k'
      using that by (simp add: field_update_other d)
    show "field (subrec ?d' t) k' = field (subrec d t) k'"
      if "t \<in> set DOENTE_SUBRECORDS" for t k'
    proof -
      have "t \<noteq> ''medicacao''" using that by (auto simp: DOENTE_SUBRECORDS_def)
      then show ?thesis by (simp add: subrec_update_other d)
    qed
    show "field (med_entry ?d' c') g = field (med_entry d c') g" for c' g
      using m by (simp add: new old field_update_absent)
  qed
  show ?thesis unfolding d' using ok' c by simp
qed

text \<open>A sub-record of the patient, written as the empty dict.\<close>

lemma doente_sub_empty:
  assumes ok: "doente_ok d" and s: "s \<in> set (''medicacao'' # DOENTE_SUBRECORDS)"
    and a: "absent_at [s] d"
  shows "doente_ok (set_at [s] (JObj []) d)
    \<and> doentes_cells R today n (set_at [s] (JObj []) d) = doentes_cells R today n d"
proof -
  from a obtain dkvs where d: "d = JObj dkvs" and m: "map_of dkvs s = None"
    by (rule absent_obj)
  let ?d' = "JObj (AList.update s (JObj []) dkvs)"
  have sr: "subrec ?d' t = subrec d t" for t
    using m by (simp add: d subrec_update_absent)
  have ok': "doente_ok ?d'"
    using ok by (simp add: doente_ok_def sr is_obj_def)
  have c: "doentes_cells R today n ?d' = doentes_cells R today n d"
  proof (rule doentes_cells_cong)
    show "field ?d' k' = field d k'"
      if "k' \<notin> set (''medicacao'' # DOENTE_SUBRECORDS)" for k'
    proof -
      have "k' \<noteq> s" using that s by auto
      then show ?thesis by (simp add: field_update_other d)
    qed
    show "field (subrec ?d' t) k' = field (subrec d t) k'" for t k'
      by (simp add: sr)
    show "field (med_entry ?d' c') g = field (med_entry d c') g" for c' g
      by (simp add: med_entry_def sr)
  qed
  show ?thesis using ok' c by (simp add: d)
qed

text \<open>The same for the visit.\<close>

lemma visita_leaf:
  assumes ok: "visita_ok v" and k: "k \<notin> set VISITA_SUBRECORDS" and a: "absent_at [k] v"
  shows "visita_ok (set_at [k] JNull v)
    \<and> visitas_cells R n (set_at [k] JNull v) = visitas_cells R n v"
proof -
  from a obtain vkvs where v: "v = JObj vkvs" and m: "map_of vkvs k = None"
    by (rule absent_obj)
  let ?v' = "JObj (AList.update k JNull vkvs)"
  have ne: "''analises'' \<noteq> k" "''sintomas'' \<noteq> k" "''exame_fisico'' \<noteq> k"
    using k by (auto simp: VISITA_SUBRECORDS_def)
  have ok': "visita_ok ?v'"
    using ok ne by (simp add: v visita_ok_def VISITA_SUBRECORDS_def subrec_update_other is_obj_def)
  have c: "visitas_cells R n ?v' = visitas_cells R n (JObj vkvs)"
  proof (rule visitas_cells_cong)
    show "field ?v' k' = field (JObj vkvs) k'" for k'
      using m by (rule field_update_absent)
    show "field (subrec ?v' s) k' = field (subrec (JObj vkvs) s) k'"
      if "s \<in> set VISITA_SUBRECORDS" for s k'
    proof -
      have "s \<noteq> k" using that k by auto
      then show ?thesis by (simp add: subrec_update_other)
    qed
  qed
  show ?thesis using ok' c by (simp add: v)
qed

lemma visita_sub_leaf:
  assumes ok: "visita_ok v" and s: "s \<in> set VISITA_SUBRECORDS" and a: "absent_at [s, k] v"
  shows "visita_ok (set_at [s, k] JNull v)
    \<and> visitas_cells R n (set_at [s, k] JNull v) = visitas_cells R n v"
proof -
  from ok obtain vkvs where v: "v = JObj vkvs" by (rule visita_ok_obj)
  have "absent_at [k] (subrec v s)" using a by (rule absent_at_subrec)
  then obtain skvs where sr: "subrec v s = JObj skvs" and m: "map_of skvs k = None"
    by (rule absent_obj)
  let ?s' = "JObj (AList.update k JNull skvs)"
  let ?v' = "JObj (AList.update s ?s' vkvs)"
  have v': "set_at [s, k] JNull v = ?v'"
    using sr by (simp add: v)
  have ok': "visita_ok ?v'"
    using ok s unfolding v
    by (auto simp: visita_ok_def VISITA_SUBRECORDS_def subrec_update is_obj_def)
  have c: "visitas_cells R n ?v' = visitas_cells R n (JObj vkvs)"
  proof (rule visitas_cells_cong)
    show "field ?v' k' = field (JObj vkvs) k'" if "k' \<notin> set VISITA_SUBRECORDS" for k'
    proof -
      have "k' \<noteq> s" using that s by auto
      then show ?thesis by (simp add: field_update_other)
    qed
    show "field (subrec ?v' t) k' = field (subrec (JObj vkvs) t) k'" for t k'
    proof (cases "t = s")
      case True
      then show ?thesis
        using sr m by (simp add: subrec_update v field_update_absent)
    next
      case False
      then show ?thesis by (simp add: subrec_update_other)
    qed
  qed
  show ?thesis unfolding v' using ok' c by (simp add: v)
qed

lemma visita_sub_empty:
  assumes ok: "visita_ok v" and s: "s \<in> set VISITA_SUBRECORDS" and a: "absent_at [s] v"
  shows "visita_ok (set_at [s] (JObj []) v)
    \<and> visitas_cells R n (set_at [s] (JObj []) v) = visitas_cells R n v"
proof -
  from a obtain vkvs where v: "v = JObj vkvs" and m: "map_of vkvs s = None"
    by (rule absent_obj)
  let ?v' = "JObj (AList.update s (JObj []) vkvs)"
  have sr: "subrec ?v' t = subrec v t" for t
    using m by (simp add: v subrec_update_absent)
  have ok': "visita_ok ?v'"
    using ok by (simp add: visita_ok_def sr is_obj_def)
  have c: "visitas_cells R n ?v' = visitas_cells R n v"
  proof (rule visitas_cells_cong)
    show "field ?v' k' = field v k'" if "k' \<notin> set VISITA_SUBRECORDS" for k'
    proof -
      have "k' \<noteq> s" using that s by auto
      then show ?thesis by (simp add: field_update_other v)
    qed
    show "field (subrec ?v' t) k' = field (subrec v t) k'" for t k'
      by (simp add: sr)
  qed
  show ?thesis using ok' c by (simp add: v)
qed

text \<open>From the patient and the visit to the whole record.\<close>

lemma doente_path_same:
  assumes ok: "doentes_ok e" and a: "absent_at (''doente'' # k # q) e"
    and step: "\<And>d. doente_ok d \<Longrightarrow> absent_at (k # q) d \<Longrightarrow>
        doente_ok (set_at (k # q) v d)
        \<and> doentes_cells R today n (set_at (k # q) v d) = doentes_cells R today n d"
  shows "doentes_ok (set_at (''doente'' # k # q) v e)
    \<and> visitas_ok (set_at (''doente'' # k # q) v e) = visitas_ok e
    \<and> build_doentes_row R today n (set_at (''doente'' # k # q) v e) = build_doentes_row R today n e
    \<and> build_visitas_row R n (set_at (''doente'' # k # q) v e) = build_visitas_row R n e"
proof -
  from ok obtain ekvs dkvs where e: "e = JObj ekvs" and dok: "doente_ok (JObj dkvs)"
    and f: "field e ''doente'' = JObj dkvs" and sr: "subrec e ''doente'' = JObj dkvs"
    by (rule doentes_ok_obj)
  have "absent_at (k # q) (subrec e ''doente'')" using a by (rule absent_at_subrec)
  then have ad: "absent_at (k # q) (JObj dkvs)" by (simp only: sr)
  have s: "set_at (''doente'' # k # q) v e
           = JObj (AList.update ''doente'' (set_at (k # q) v (JObj dkvs)) ekvs)"
    using set_at_doente [OF e sr] .
  show ?thesis
    unfolding s
    using doente_change [OF ok e, of "set_at (k # q) v (JObj dkvs)" R today n] step [OF dok ad]
    by (simp add: f)
qed

lemma visita_path_same:
  assumes ok: "visitas_ok e" and a: "absent_at (''visita'' # k # q) e"
    and step: "\<And>w. visita_ok w \<Longrightarrow> absent_at (k # q) w \<Longrightarrow>
        visita_ok (set_at (k # q) v w)
        \<and> visitas_cells R n (set_at (k # q) v w) = visitas_cells R n w"
  shows "visitas_ok (set_at (''visita'' # k # q) v e)
    \<and> doentes_ok (set_at (''visita'' # k # q) v e) = doentes_ok e
    \<and> build_visitas_row R n (set_at (''visita'' # k # q) v e) = build_visitas_row R n e
    \<and> build_doentes_row R today n (set_at (''visita'' # k # q) v e) = build_doentes_row R today n e"
proof -
  from ok obtain ekvs vkvs where e: "e = JObj ekvs" and vok: "visita_ok (JObj vkvs)"
    and f: "field e ''visita'' = JObj vkvs" and sr: "subrec e ''visita'' = JObj vkvs"
    by (rule visitas_ok_obj)
  have "absent_at (k # q) (subrec e ''visita'')" using a by (rule absent_at_subrec)
  then have ad: "absent_at (k # q) (JObj vkvs)" by (simp only: sr)
  have s: "set_at (''visita'' # k # q) v e
           = JObj (AList.update ''visita'' (set_at (k # q) v (JObj vkvs)) ekvs)"
    using e sr by simp
  show ?thesis
    unfolding s
    using visita_change [OF ok e, of "set_at (k # q) v (JObj vkvs)" R n today] step [OF vok ad]
    by (simp add: f)
qed

lemma leaf_path_cases:
  assumes "leaf_path p"
  obtains (dl) k where "p = [''doente'', k]" "k \<notin> set (''medicacao'' # DOENTE_SUBRECORDS)"
  | (vl) k where "p = [''visita'', k]" "k \<notin> set VISITA_SUBRECORDS"
  | (ds) s k where "p = [''doente'', s, k]" "s \<in> set DOENTE_SUBRECORDS"
  | (mc) c where "p = [''doente'', ''medicacao'', c]"
  | (vs) s k where "p = [''visita'', s, k]" "s \<in> set VISITA_SUBRECORDS"
  | (mf) c f where "p = [''doente'', ''medicacao'', c, f]"
  using assms by (auto simp: leaf_path_def split: list.splits)

lemma subrecord_path_cases:
  assumes "subrecord_path p"
  obtains (dse) s where "p = [''doente'', s]" "s \<in> set (''medicacao'' # DOENTE_SUBRECORDS)"
  | (vse) s where "p = [''visita'', s]" "s \<in> set VISITA_SUBRECORDS"
  using assms by (auto simp: subrecord_path_def split: list.splits)

lemma path_value_null: "path_value p JNull = JNull"
  by (induction p) (simp_all add: field_def)

lemma absent_path_value: "absent_at p x \<Longrightarrow> path_value (p @ q) x = JNull"
proof (induction p arbitrary: x)
  case Nil
  then show ?case by simp
next
  case (Cons k ks)
  then obtain kvs where x: "x = JObj kvs"
    by (cases x) simp_all
  show ?case
  proof (cases "map_of kvs k")
    case None
    then show ?thesis
      by (simp add: x field_def path_value_null)
  next
    case (Some c)
    then have "absent_at ks c"
      using Cons.prems by (simp add: x)
    then have "path_value (ks @ q) c = JNull"
      by (rule Cons.IH)
    then show ?thesis
      by (simp add: x field_def Some)
  qed
qed

lemma field_subrec: "field (subrec x s) k = field (field x s) k"
  by (cases x) (simp_all add: field_def subrec_def split: option.splits)

lemma field_py_or_empty: "field (py_or v (JObj [])) f = field v f"
  by (cases v) (simp_all add: py_or_def field_def)

lemma field_med_entry: "field (med_entry d c) f = field (field (field d ''medicacao'') c) f"
  by (simp add: med_entry_def field_py_or_empty field_subrec)

text \<open>Every column read from the record holds the leaf of what its path leads to.\<close>

lemma doentes_cells_paths:
  "list_all2 (\<lambda>p c. p = [] \<or> c = sv R (path_value p e)) DOENTES_PATHS
     (doentes_cells R today n (field e ''doente''))"
  by (simp add: DOENTES_PATHS_def doentes_cells_def get_cells_def med_cells_def MED_KEYS_def
      field_subrec field_med_entry)

lemma visitas_cells_paths:
  "list_all2 (\<lambda>p c. p = [] \<or> c = sv R (path_value p e)) VISITAS_PATHS
     (visitas_cells R n (field e ''visita''))"
  by (simp add: VISITAS_PATHS_def visitas_cells_def get_cells_def field_subrec)

lemma absent_column_empty:
  assumes l: "list_all2 (\<lambda>p c. p = [] \<or> c = sv R (path_value p e)) ps row"
    and a: "absent_at p e" and j: "j < length ps" and t: "take (length p) (ps ! j) = p"
  shows "row ! j = []"
proof -
  have ne: "p \<noteq> []"
    using a by (cases p) simp_all
  have c: "ps ! j = p @ drop (length p) (ps ! j)"
    using t by (metis append_take_drop_id)
  then have "ps ! j \<noteq> []"
    using ne by (metis append_is_Nil_conv)
  then have "row ! j = sv R (path_value (ps ! j) e)"
    using list_all2_nthD [OF l j] by simp
  also have "path_value (ps ! j) e = JNull"
    using absent_path_value [OF a, of "drop (length p) (ps ! j)"] c by simp
  finally show ?thesis
    by (simp add: sv.simps)
qed

text \<open>
  C8, as the code has it. On a record whose \<^verbatim>\<open>doente\<close> and \<^verbatim>\<open>visita\<close> hold dicts,
  whose sub-records are dicts or absent and whose medication classes are dicts, absent
  or values Python counts as false (\<open>doentes_ok\<close>, \<open>visitas_ok\<close>), both builders return
  a row. Where a path of keys is absent from the record, every column read from that
  path or from below it holds the empty string. Writing an explicit null where a field
  is absent (a field of the patient or of the visit, a field of a sub-record, a
  medication class, a field of a medication class) changes neither row, so that the
  same columns hold the empty string for the null; writing an empty dict where a
  sub-record is absent changes neither row.
\<close>

theorem absent_field_like_null:
  assumes okd: "doentes_ok e" and okv: "visitas_ok e" and a: "absent_at p e"
  shows "(\<exists>row. build_doentes_row R today n e = Inr row)
    \<and> (\<exists>row. build_visitas_row R n e = Inr row)
    \<and> (leaf_path p \<longrightarrow>
         doentes_ok (set_at p JNull e) \<and> visitas_ok (set_at p JNull e)
         \<and> build_doentes_row R today n (set_at p JNull e) = build_doentes_row R today n e
         \<and> build_visitas_row R n (set_at p JNull e) = build_visitas_row R n e)
    \<and> (subrecord_path p \<longrightarrow>
         doentes_ok (set_at p (JObj []) e) \<and> visitas_ok (set_at p (JObj []) e)
         \<and> build_doentes_row R today n (set_at p (JObj []) e) = build_doentes_row R today n e
         \<and> build_visitas_row R n (set_at p (JObj []) e) = build_visitas_row R n e)
    \<and> (\<forall>j<length DOENTES_PATHS. take (length p) (DOENTES_PATHS ! j) = p \<longrightarrow>
         (\<exists>row. build_doentes_row R today n e = Inr row \<and> row ! j = [])
         \<and> (leaf_path p \<longrightarrow>
              (\<exists>row. build_doentes_row R today n (set_at p JNull e) = Inr row \<and> row ! j = [])))
    \<and> (\<forall>j<length VISITAS_PATHS. take (length p) (VISITAS_PATHS ! j) = p \<longrightarrow>
         (\<exists>row. build_visitas_row R n e = Inr row \<and> row ! j = [])
         \<and> (leaf_path p \<longrightarrow>
              (\<exists>row. build_visitas_row R n (set_at p JNull e) = Inr row \<and> row ! j = [])))"
proof -
  let ?same = "\<lambda>v. doentes_ok (set_at p v e) \<and> visitas_ok (set_at p v e)
         \<and> build_doentes_row R today n (set_at p v e) = build_doentes_row R today n e
         \<and> build_visitas_row R n (set_at p v e) = build_visitas_row R n e"
  let ?d = "\<lambda>v. doentes_ok (set_at p v e) \<and> visitas_ok (set_at p v e) = visitas_ok e
         \<and> build_doentes_row R today n (set_at p v e) = build_doentes_row R today n e
         \<and> build_visitas_row R n (set_at p v e) = build_visitas_row R n e"
  let ?v = "\<lambda>v. visitas_ok (set_at p v e) \<and> doentes_ok (set_at p v e) = doentes_ok e
         \<and> build_visitas_row R n (set_at p v e) = build_visitas_row R n e
         \<and> build_doentes_row R today n (set_at p v e) = build_doentes_row R today n e"
  have rows: "(\<exists>row. build_doentes_row R today n e = Inr row)"
    "(\<exists>row. build_visitas_row R n e = Inr row)"
    using build_doentes_row_ok [OF okd] build_visitas_row_ok [OF okv] by blast+
  have leaf: "?same JNull" if "leaf_path p"
    using that
  proof (cases rule: leaf_path_cases)
    case (dl k)
    have "?d JNull"
      unfolding dl(1)
      by (rule doente_path_same [OF okd a [unfolded dl(1)]])
        (rule doente_leaf [OF _ dl(2)]; assumption)
    then show ?thesis using okv by blast
  next
    case (vl k)
    have "?v JNull"
      unfolding vl(1)
      by (rule visita_path_same [OF okv a [unfolded vl(1)]])
        (rule visita_leaf [OF _ vl(2)]; assumption)
    then show ?thesis using okd by blast
  next
    case (ds s k)
    have "?d JNull"
      unfolding ds(1)
      by (rule doente_path_same [OF okd a [unfolded ds(1)]])
        (rule doente_sub_leaf [OF _ ds(2)]; assumption)
    then show ?thesis using okv by blast
  next
    case (mc c)
    have "?d JNull"
      unfolding mc
      by (rule doente_path_same [OF okd a [unfolded mc]])
        (rule doente_med_class; assumption)
    then show ?thesis using okv by blast
  next
    case (vs s k)
    have "?v JNull"
      unfolding vs(1)
      by (rule visita_path_same [OF okv a [unfolded vs(1)]])
        (rule visita_sub_leaf [OF _ vs(2)]; assumption)
    then show ?thesis using okd by blast
  next
    case (mf c f)
    have "?d JNull"
      unfolding mf
      by (rule doente_path_same [OF okd a [unfolded mf]])
        (rule doente_med_field; assumption)
    then show ?thesis using okv by blast
  qed
  have sub: "?same (JObj [])" if "subrecord_path p"
    using that
  proof (cases rule: subrecord_path_cases)
    case (dse s)
    have "?d (JObj [])"
      unfolding dse(1)
      by (rule doente_path_same [OF okd a [unfolded dse(1)]])
        (rule doente_sub_empty [OF _ dse(2)]; assumption)
    then show ?thesis using okv by blast
  next
    case (vse s)
    have "?v (JObj [])"
      unfolding vse(1)
      by (rule visita_path_same [OF okv a [unfolded vse(1)]])
        (rule visita_sub_empty [OF _ vse(2)]; assumption)
    then show ?thesis using okd by blast
  qed
  have dcol: "\<exists>row. build_doentes_row R today n e = Inr row \<and> row ! j = []"
    if "j < length DOENTES_PATHS" "take (length p) (DOENTES_PATHS ! j) = p" for j
    using build_doentes_row_ok [OF okd, of R today n]
      absent_column_empty [OF doentes_cells_paths a that, of R today n]
    by simp
  have vcol: "\<exists>row. build_visitas_row R n e = Inr row \<and> row ! j = []"
    if "j < length VISITAS_PATHS" "take (length p) (VISITAS_PATHS ! j) = p" for j
    using build_visitas_row_ok [OF okv, of R n]
      absent_column_empty [OF visitas_cells_paths a that, of R n]
    by simp
  have dnull: "\<exists>row. build_doentes_row R today n (set_at p JNull e) = Inr row \<and> row ! j = []"
    if "j < length DOENTES_PATHS" "take (length p) (DOENTES_PATHS ! j) = p" "leaf_path p" for j
    using dcol [OF that(1,2)] leaf [OF that(3)] by simp
  have vnull: "\<exists>row. build_visitas_row R n (set_at p JNull e) = Inr row \<and> row ! j = []"
    if "j < length VISITAS_PATHS" "take (length p) (VISITAS_PATHS ! j) = p" "leaf_path p" for j
    using vcol [OF that(1,2)] leaf [OF that(3)] by simp
  have d: "\<forall>j<length DOENTES_PATHS. take (length p) (DOENTES_PATHS ! j) = p \<longrightarrow>
         (\<exists>row. build_doentes_row R today n e = Inr row \<and> row ! j = [])
         \<and> (leaf_path p \<longrightarrow>
              (\<exists>row. build_doentes_row R today n (set_at p JNull e) = Inr row \<and> row ! j = []))"
    using dcol dnull by blast
  have v: "\<forall>j<length VISITAS_PATHS. take (length p) (VISITAS_PATHS ! j) = p \<longrightarrow>
         (\<exists>row. build_visitas_row R n e = Inr row \<and> row ! j = [])
         \<and> (leaf_path p \<longrightarrow>
              (\<exists>row. build_visitas_row R n (set_at p JNull e) = Inr row \<and> row ! j = []))"
    using vcol vnull by blast
  show ?thesis
    using rows leaf sub d v by blast
qed

text \<open>
  An instance: the risk factors are absent, then hold one null field; the column of that
  field is the ninth. The analyses are absent, then are an empty dict; their first
  column is the third of the visit's row.
\<close>

theorem absent_field_like_null_witness:
  "doentes_ok (JObj [(''doente'', JObj [(''sexo'', JStr ''M'')]), (''visita'', JObj [])])
   \<and> visitas_ok (JObj [(''doente'', JObj [(''sexo'', JStr ''M'')]), (''visita'', JObj [])])
   \<and> absent_at [''doente'', ''frcv'', ''dm2'']
        (JObj [(''doente'', JObj [(''sexo'', JStr ''M'')]), (''visita'', JObj [])])
   \<and> leaf_path [''doente'', ''frcv'', ''dm2'']
   \<and> set_at [''doente'', ''frcv'', ''dm2''] JNull
        (JObj [(''doente'', JObj [(''sexo'', JStr ''M'')]), (''visita'', JObj [])])
       = JObj [(''doente'', JObj [(''sexo'', JStr ''M''), (''frcv'', JObj [(''dm2'', JNull)])]),
               (''visita'', JObj [])]
   \<and> build_doentes_row (\<lambda>v. []) \<lparr>year = 2024, month = 3, day = 9\<rparr> ''123456''
        (JObj [(''doente'', JObj [(''sexo'', JStr ''M''), (''frcv'', JObj [(''dm2'', JNull)])]),
               (''visita'', JObj [])])
       = build_doentes_row (\<lambda>v. []) \<lparr>year = 2024, month = 3, day = 9\<rparr> ''123456''
          (JObj [(''doente'', JObj [(''sexo'', JStr ''M'')]), (''visita'', JObj [])])
   \<and> build_visitas_row (\<lambda>v. []) ''123456''
        (JObj [(''doente'', JObj [(''sexo'', JStr ''M''), (''frcv'', JObj [(''dm2'', JNull)])]),
               (''visita'', JObj [])])
       = build_visitas_row (\<lambda>v. []) ''123456''
          (JObj [(''doente'', JObj [(''sexo'', JStr ''M'')]), (''visita'', JObj [])])
   \<and> 8 < length DOENTES_PATHS
   \<and> DOENTES_PATHS ! 8 = [''doente'', ''frcv'', ''dm2'']
   \<and> (\<exists>row. build_doentes_row (\<lambda>v. []) \<lparr>year = 2024, month = 3, day = 9\<rparr> ''123456''
          (JObj [(''doente'', JObj [(''sexo'', JStr ''M'')]), (''visita'', JObj [])]) = Inr row
        \<and> row ! 8 = [])
   \<and> (\<exists>row. build_doentes_row (\<lambda>v. []) \<lparr>year = 2024, month = 3, day = 9\<rparr> ''123456''
          (JObj [(''doente'', JObj [(''sexo'', JStr ''M''), (''frcv'', JObj [(''dm2'', JNull)])]),
                 (''visita'', JObj [])]) = Inr row
        \<and> row ! 8 = [])
   \<and> absent_at [''visita'', ''analises'']
        (JObj [(''doente'', JObj [(''sexo'', JStr ''M'')]), (''visita'', JObj [])])
   \<and> subrecord_path [''visita'', ''analises'']
   \<and> set_at [''visita'', ''analises''] (JObj [])
        (JObj [(''doente'', JObj [(''sexo'', JStr ''M'')]), (''visita'', JObj [])])
       = JObj [(''doente'', JObj [(''sexo'', JStr ''M'')]),
               (''visita'', JObj [(''analises'', JObj [])])]
   \<and> build_visitas_row (\<lambda>v. []) ''123456''
        (JObj [(''doente'', JObj [(''sexo'', JStr ''M'')]),
               (''visita'', JObj [(''analises'', JObj [])])])
       = build_visitas_row (\<lambda>v. []) ''123456''
          (JObj [(''doente'', JObj [(''sexo'', JStr ''M'')]), (''visita'', JObj [])])
   \<and> 2 < length VISITAS_PATHS
   \<and> VISITAS_PATHS ! 2 = [''visita'', ''analises'', ''ureia'']
   \<and> (\<exists>row. build_visitas_row (\<lambda>v. []) ''123456''
          (JObj [(''doente'', JObj [(''sexo'', JStr ''M'')]), (''visita'', JObj [])]) = Inr row
        \<and> row ! 2 = [])"
proof -
  let ?e = "JObj [(''doente'', JObj [(''sexo'', JStr ''M'')]), (''visita'', JObj [])]"
  let ?p = "[''doente'', ''frcv'', ''dm2'']"
  let ?q = "[''visita'', ''analises'']"
  let ?today = "\<lparr>year = 2024, month = 3, day = 9\<rparr>"
  have okd: "doentes_ok ?e"
    by (simp add: doentes_ok_def doente_ok_def is_obj_def subrec_def field_def med_entry_ok_def
        DOENTE_SUBRECORDS_def MED_KEYS_def)
  have okv: "visitas_ok ?e"
    by (simp add: visitas_ok_def visita_ok_def is_obj_def subrec_def VISITA_SUBRECORDS_def)
  have a: "absent_at ?p ?e" by simp
  have l: "leaf_path ?p" by (simp add: leaf_path_def DOENTE_SUBRECORDS_def)
  have s: "set_at ?p JNull ?e
       = JObj [(''doente'', JObj [(''sexo'', JStr ''M''), (''frcv'', JObj [(''dm2'', JNull)])]),
               (''visita'', JObj [])]"
    by (simp add: subrec_def)
  have j: "8 < length DOENTES_PATHS"
    by (simp add: DOENTES_PATHS_def MED_KEYS_def)
  have c: "DOENTES_PATHS ! 8 = ?p"
    by (simp add: DOENTES_PATHS_def)
  have t: "take (length ?p) (DOENTES_PATHS ! 8) = ?p"
    by (simp add: c)
  have b: "absent_at ?q ?e" by simp
  have m: "subrecord_path ?q" by (simp add: subrecord_path_def VISITA_SUBRECORDS_def)
  have u: "set_at ?q (JObj []) ?e
       = JObj [(''doente'', JObj [(''sexo'', JStr ''M'')]),
               (''visita'', JObj [(''analises'', JObj [])])]"
    by (simp add: subrec_def)
  have i: "2 < length VISITAS_PATHS"
    by (simp add: VISITAS_PATHS_def)
  have g: "VISITAS_PATHS ! 2 = [''visita'', ''analises'', ''ureia'']"
    by (simp add: VISITAS_PATHS_def)
  have w: "take (length ?q) (VISITAS_PATHS ! 2) = ?q"
    by (simp add: g)
  note T = absent_field_like_null [OF okd okv a, of "\<lambda>v. []" ?today "''123456''"]
  note U = absent_field_like_null [OF okd okv b, of "\<lambda>v. []" ?today "''123456''"]
  have 1: "build_doentes_row (\<lambda>v. []) ?today ''123456'' (set_at ?p JNull ?e)
       = build_doentes_row (\<lambda>v. []) ?today ''123456'' ?e"
    "build_visitas_row (\<lambda>v. []) ''123456'' (set_at ?p JNull ?e)
       = build_visitas_row (\<lambda>v. []) ''123456'' ?e"
    using T l by blast+
  have 2: "\<exists>row. build_doentes_row (\<lambda>v. []) ?today ''123456'' ?e = Inr row \<and> row ! 8 = []"
    "\<exists>row. build_doentes_row (\<lambda>v. []) ?today ''123456'' (set_at ?p JNull ?e) = Inr row
       \<and> row ! 8 = []"
    using T l j t by blast+
  have 3: "build_visitas_row (\<lambda>v. []) ''123456'' (set_at ?q (JObj []) ?e)
       = build_visitas_row (\<lambda>v. []) ''123456'' ?e"
    using U m by blast
  have 4: "\<exists>row. build_visitas_row (\<lambda>v. []) ''123456'' ?e = Inr row \<and> row ! 2 = []"
    using U i w by blast
  show ?thesis
    using okd okv a l j c b m i g 1 [unfolded s] 2 [unfolded s] 3 [unfolded u] 4 s u
    by blast
qed

text \<open>
  The claim fails for the top-level keys, for the sub-records and for the medication
  classes. Without \<^verbatim>\<open>doente\<close> or \<^verbatim>\<open>visita\<close> the subscript raises \<^verbatim>\<open>KeyError\<close>; a
  null \<^verbatim>\<open>doente\<close> raises \<^verbatim>\<open>AttributeError\<close>. An absent sub-record gives empty
  cells, but a sub-record that is null raises \<^verbatim>\<open>AttributeError\<close>: the default of
  \<^verbatim>\<open>get\<close> stands in for a missing key only. A medication class that holds a text
  raises \<^verbatim>\<open>AttributeError\<close> too.
\<close>

theorem absent_field_like_null_counterexample:
  "build_doentes_row (\<lambda>v. []) \<lparr>year = 2024, month = 3, day = 9\<rparr> ''123456''
     (JObj [(''visita'', JObj [])]) = Inl KeyError
   \<and> build_visitas_row (\<lambda>v. []) ''123456'' (JObj [(''doente'', JObj [])]) = Inl KeyError
   \<and> build_doentes_row (\<lambda>v. []) \<lparr>year = 2024, month = 3, day = 9\<rparr> ''123456''
       (JObj [(''doente'', JNull)]) = Inl AttributeError
   \<and> build_doentes_row (\<lambda>v. []) \<lparr>year = 2024, month = 3, day = 9\<rparr> ''123456''
       (JObj [(''doente'', JObj [])]) = Inr (''123456'' # replicate 69 [] @ [''2024-03-09''])
   \<and> build_doentes_row (\<lambda>v. []) \<lparr>year = 2024, month = 3, day = 9\<rparr> ''123456''
       (JObj [(''doente'', JObj [(''frcv'', JNull)])]) = Inl AttributeError
   \<and> build_doentes_row (\<lambda>v. []) \<lparr>year = 2024, month = 3, day = 9\<rparr> ''123456''
       (JObj [(''doente'', JObj [(''medicacao'', JNull)])]) = Inl AttributeError
   \<and> build_visitas_row (\<lambda>v. []) ''123456'' (JObj [(''visita'', JObj [(''analises'', JNull)])])
       = Inl AttributeError
   \<and> build_doentes_row (\<lambda>v. []) \<lparr>year = 2024, month = 3, day = 9\<rparr> ''123456''
       (JObj [(''doente'', JObj [(''medicacao'', JObj [(''rasi'', JStr ''losartan'')])])])
       = Inl AttributeError"
  by code_simp

section \<open>Further properties\<close>

text \<open>
  The scenario of the spec: identifier \<^verbatim>\<open>123456\<close>, sex \<^verbatim>\<open>M\<close>, frailty 4, ejection
  fraction category \<^verbatim>\<open>FEp\<close>, the class \<^verbatim>\<open>rasi\<close> present with losartan 50mg, everything
  else absent, saved on 2024-03-09. The cells that are not empty are the identifier, the
  sex, the frailty, the category, the three cells of \<^verbatim>\<open>rasi\<close> and the date.
\<close>

theorem end_to_end_row:
  "build_doentes_row R \<lparr>year = 2024, month = 3, day = 9\<rparr> ''123456''
     (JObj [(''doente'',
             JObj [(''sexo'', JStr ''M''), (''frailty_cfs'', JInt 4),
                   (''ic'', JObj [(''tipo_fe'', JStr ''FEp'')]),
                   (''medicacao'',
                    JObj [(''rasi'', JObj [(''presente'', JBool True), (''farmaco'', JStr ''losartan''),
                                           (''dose'', JStr ''50mg'')])])]),
            (''visita'', JObj [])])
   = Inr ([''123456'', [], [], ''M'', [], [], ''4''] @ replicate 15 [] @ [''FEp''] @ replicate 11 []
          @ [''Sim'', ''losartan'', ''50mg''] @ replicate 33 [] @ [''2024-03-09''])"
  by code_simp

text \<open>
  The visit table is written by \<^verbatim>\<open>append_row\<close> only: after any number of rows added,
  the table has that many rows more.
\<close>

theorem append_rows_count:
  "length (foldl append_row ws rows) = length ws + length rows"
  by (induction rows arbitrary: ws) (simp_all add: append_row_def)

end
